theory Spec2Isabelle
  imports Main "HOL-Library.AList" "HOL-Library.Sublist"
begin

section \<open>JSON values as Python sees them\<close>

text \<open>
  \<^verbatim>\<open>analyze_stripe_event\<close> of \<^verbatim>\<open>main.py\<close> works on values decoded from JSON: \<^verbatim>\<open>None\<close>,
  \<^verbatim>\<open>bool\<close>, \<^verbatim>\<open>int\<close>, \<^verbatim>\<open>float\<close>, \<^verbatim>\<open>str\<close>, \<^verbatim>\<open>list\<close> and \<^verbatim>\<open>dict\<close> with string keys. A
  \<^verbatim>\<open>dict\<close> keeps insertion order, so it is an association list; lookups read the first
  binding of a key (a decoded \<^verbatim>\<open>dict\<close> never has a key twice). A float is carried as the
  text of its \<^verbatim>\<open>repr\<close> (\<^verbatim>\<open>1.5\<close>, \<^verbatim>\<open>1e+22\<close>, \<^verbatim>\<open>nan\<close>, \<^verbatim>\<open>inf\<close>), the only thing the
  program ever does with one. A \<^verbatim>\<open>str\<close> is a list of characters with code points below
  256.
\<close>

datatype json =
    JNull
  | JBool bool
  | JInt int
  | JFloat string
  | JStr string
  | JArr "json list"
  | JObj "(string \<times> json) list"

text \<open>The exceptions the function can meet; all of them derive from \<^verbatim>\<open>Exception\<close>.\<close>

datatype error =
    AttributeError
  | TypeError
  | KeyError
  | IndexError
  | ValueError
  | JSONDecodeError
  | RequestError
  | HTTPStatusError
  | RecursionError

text \<open>
  \<^verbatim>\<open>str()\<close> of a \<^verbatim>\<open>list\<close> or \<^verbatim>\<open>dict\<close> and \<^verbatim>\<open>json.dumps\<close> recurse on the nesting of
  their argument and raise \<^verbatim>\<open>RecursionError\<close> when the interpreter's stack is exhausted.
  Whether that happens to a given value depends on the recursion limit, on the frames in
  use when \<^verbatim>\<open>analyze_stripe_event\<close> is called and on what the value holds at each level:
  like \<^verbatim>\<open>json.loads\<close> and the completion service, it belongs to the environment of the
  program, and it is a parameter of the model, one predicate for each of the two functions.
  \<^verbatim>\<open>analyze_stripe_event\<close> calls both from its own frame, so the same predicate answers
  for every call it makes. The calls whose depth does not grow with the event (the log
  calls, the construction of the request) are taken to return.
\<close>

record stack =
  str_exhausts :: "json \<Rightarrow> bool"
  dumps_exhausts :: "json \<Rightarrow> bool"

subsection \<open>Methods of \<^verbatim>\<open>str\<close>\<close>

definition isspace :: "char \<Rightarrow> bool" where
  "isspace c = (let n = (of_char c :: nat)
     in (9 \<le> n \<and> n \<le> 13) \<or> (28 \<le> n \<and> n \<le> 32) \<or> n = 133 \<or> n = 160)"

definition lower_char :: "char \<Rightarrow> char" where
  "lower_char c = (let n = (of_char c :: nat)
     in if (65 \<le> n \<and> n \<le> 90) \<or> (192 \<le> n \<and> n \<le> 222 \<and> n \<noteq> 215)
        then char_of (n + 32) else c)"

definition lower :: "string \<Rightarrow> string" where
  "lower s = map lower_char s"

definition strip :: "string \<Rightarrow> string" where
  "strip s = rev (dropWhile isspace (rev (dropWhile isspace s)))"

text \<open>
  \<^verbatim>\<open>s.replace(old, new)\<close>: the occurrences of \<^verbatim>\<open>old\<close> are found from the left and do not
  overlap; an empty \<^verbatim>\<open>old\<close> matches before every character and at the end.
\<close>

function replace :: "string \<Rightarrow> string \<Rightarrow> string \<Rightarrow> string" where
  "replace old new [] = (if old = [] then new else [])"
| "replace old new (c # cs) =
     (if old = [] then new @ c # replace old new cs
      else if prefix old (c # cs) then new @ replace old new (drop (length old) (c # cs))
      else c # replace old new cs)"
  by pat_completeness auto
termination
  by (relation "measure (\<lambda>(old, new, s). length s)") auto

text \<open>\<^verbatim>\<open>sub in s\<close> for two strings, as a scan from the left.\<close>

fun contains :: "string \<Rightarrow> string \<Rightarrow> bool" where
  "contains sub [] = (sub = [])"
| "contains sub (c # cs) = (prefix sub (c # cs) \<or> contains sub cs)"

fun py_join :: "string \<Rightarrow> string list \<Rightarrow> string" where
  "py_join sep [] = []"
| "py_join sep [x] = x"
| "py_join sep (x # y # ys) = x @ sep @ py_join sep (y # ys)"

subsection \<open>Operations that raise on the wrong type\<close>

text \<open>\<^verbatim>\<open>x.get(k, d)\<close>: only a \<^verbatim>\<open>dict\<close> has the method.\<close>

fun py_get :: "json \<Rightarrow> string \<Rightarrow> json \<Rightarrow> error + json" where
  "py_get (JObj kvs) k d = Inr (case map_of kvs k of None \<Rightarrow> d | Some v \<Rightarrow> v)"
| "py_get _ k d = Inl AttributeError"

text \<open>\<^verbatim>\<open>x[k]\<close> with a string \<^verbatim>\<open>k\<close>.\<close>

fun py_getitem :: "json \<Rightarrow> string \<Rightarrow> error + json" where
  "py_getitem (JObj kvs) k = (case map_of kvs k of None \<Rightarrow> Inl KeyError | Some v \<Rightarrow> Inr v)"
| "py_getitem _ k = Inl TypeError"

text \<open>\<^verbatim>\<open>x[0]\<close>: the keys of a decoded object are strings, so \<^verbatim>\<open>0\<close> is never one of them.\<close>

fun py_getitem0 :: "json \<Rightarrow> error + json" where
  "py_getitem0 (JArr xs) = (case xs of [] \<Rightarrow> Inl IndexError | x # _ \<Rightarrow> Inr x)"
| "py_getitem0 (JStr s) = (case s of [] \<Rightarrow> Inl IndexError | c # _ \<Rightarrow> Inr (JStr [c]))"
| "py_getitem0 (JObj kvs) = Inl KeyError"
| "py_getitem0 _ = Inl TypeError"

text \<open>\<^verbatim>\<open>x[k] = v\<close> with a string \<^verbatim>\<open>k\<close>: an existing key keeps its place, a new one goes last.\<close>

fun py_setitem :: "json \<Rightarrow> string \<Rightarrow> json \<Rightarrow> error + json" where
  "py_setitem (JObj kvs) k v = Inr (JObj (AList.update k v kvs))"
| "py_setitem _ k v = Inl TypeError"

text \<open>
  \<^verbatim>\<open>s in x\<close> for a string \<^verbatim>\<open>s\<close>: a substring test on a \<^verbatim>\<open>str\<close>, a search for an equal
  element in a \<^verbatim>\<open>list\<close>, a key test on a \<^verbatim>\<open>dict\<close>, a \<^verbatim>\<open>TypeError\<close> on anything else.
\<close>

fun py_in :: "string \<Rightarrow> json \<Rightarrow> error + bool" where
  "py_in s (JStr t) = Inr (contains s t)"
| "py_in s (JArr xs) = Inr (JStr s \<in> set xs)"
| "py_in s (JObj kvs) = Inr (s \<in> set (map fst kvs))"
| "py_in s _ = Inl TypeError"

fun py_lower :: "json \<Rightarrow> error + string" where
  "py_lower (JStr s) = Inr (lower s)"
| "py_lower _ = Inl AttributeError"

subsection \<open>\<^verbatim>\<open>str()\<close> and \<^verbatim>\<open>repr()\<close>, as an f-string applies them\<close>

fun digits :: "nat \<Rightarrow> string" where
  "digits n = (if n < 10 then [char_of (48 + n)]
               else digits (n div 10) @ [char_of (48 + n mod 10)])"

definition int_str :: "int \<Rightarrow> string" where
  "int_str i = (if i < 0 then CHR ''-'' # digits (nat (- i)) else digits (nat i))"

definition hex_digit :: "nat \<Rightarrow> char" where
  "hex_digit d = (if d < 10 then char_of (48 + d) else char_of (87 + d))"

definition hex2 :: "nat \<Rightarrow> string" where
  "hex2 n = [hex_digit (n div 16), hex_digit (n mod 16)]"

definition isprintable :: "char \<Rightarrow> bool" where
  "isprintable c = (let n = (of_char c :: nat)
     in (32 \<le> n \<and> n \<le> 126) \<or> (161 \<le> n \<and> n \<noteq> 173))"

definition repr_char :: "char \<Rightarrow> char \<Rightarrow> string" where
  "repr_char quote c =
     (if c = quote \<or> c = CHR 0x5C then [CHR 0x5C, c]
      else if c = CHR 0x09 then [CHR 0x5C, CHR ''t'']
      else if c = CHR 0x0A then [CHR 0x5C, CHR ''n'']
      else if c = CHR 0x0D then [CHR 0x5C, CHR ''r'']
      else if isprintable c then [c]
      else [CHR 0x5C, CHR ''x''] @ hex2 (of_char c))"

definition repr_str :: "string \<Rightarrow> string" where
  "repr_str s =
     (let quote = (if CHR 0x27 \<in> set s \<and> CHR 0x22 \<notin> set s then CHR 0x22 else CHR 0x27)
      in quote # concat (map (repr_char quote) s) @ [quote])"

fun py_repr :: "json \<Rightarrow> string" where
  "py_repr JNull = ''None''"
| "py_repr (JBool b) = (if b then ''True'' else ''False'')"
| "py_repr (JInt i) = int_str i"
| "py_repr (JFloat r) = r"
| "py_repr (JStr s) = repr_str s"
| "py_repr (JArr xs) = ''['' @ py_join '', '' (map py_repr xs) @ '']''"
| "py_repr (JObj kvs) =
     ''{'' @ py_join '', '' (map (\<lambda>(k, v). repr_str k @ '': '' @ py_repr v) kvs) @ ''}''"

text \<open>
  \<^verbatim>\<open>str(v)\<close>: a string is itself; anything else is its \<^verbatim>\<open>repr\<close>, which for a \<^verbatim>\<open>list\<close>
  or a \<^verbatim>\<open>dict\<close> recurses on the elements and can exhaust the stack on the way.
\<close>

fun py_str :: "stack \<Rightarrow> json \<Rightarrow> error + string" where
  "py_str st (JStr s) = Inr s"
| "py_str st (JArr xs) =
     (if str_exhausts st (JArr xs) then Inl RecursionError else Inr (py_repr (JArr xs)))"
| "py_str st (JObj kvs) =
     (if str_exhausts st (JObj kvs) then Inl RecursionError else Inr (py_repr (JObj kvs)))"
| "py_str st v = Inr (py_repr v)"

subsection \<open>\<^verbatim>\<open>json.dumps(x, indent=2)\<close>\<close>

definition json_escape_char :: "char \<Rightarrow> string" where
  "json_escape_char c =
     (if c = CHR 0x22 then [CHR 0x5C, CHR 0x22]
      else if c = CHR 0x5C then [CHR 0x5C, CHR 0x5C]
      else if c = CHR 0x0A then [CHR 0x5C, CHR ''n'']
      else if c = CHR 0x0D then [CHR 0x5C, CHR ''r'']
      else if c = CHR 0x09 then [CHR 0x5C, CHR ''t'']
      else if c = CHR 0x08 then [CHR 0x5C, CHR ''b'']
      else if c = CHR 0x0C then [CHR 0x5C, CHR ''f'']
      else if 32 \<le> (of_char c :: nat) \<and> (of_char c :: nat) \<le> 126 then [c]
      else [CHR 0x5C, CHR ''u'', CHR ''0'', CHR ''0''] @ hex2 (of_char c))"

definition json_string :: "string \<Rightarrow> string" where
  "json_string s = CHR 0x22 # concat (map json_escape_char s) @ [CHR 0x22]"

definition json_float :: "string \<Rightarrow> string" where
  "json_float r = (if r = ''nan'' then ''NaN'' else if r = ''inf'' then ''Infinity''
                   else if r = ''-inf'' then ''-Infinity'' else r)"

definition newline_indent :: "nat \<Rightarrow> string" where
  "newline_indent level = CHR 0x0A # replicate (2 * level) CHR '' ''"

text \<open>The text \<^verbatim>\<open>json.dumps\<close> builds, at a level of indentation.\<close>

fun dumps_text :: "nat \<Rightarrow> json \<Rightarrow> string" where
  "dumps_text level JNull = ''null''"
| "dumps_text level (JBool b) = (if b then ''true'' else ''false'')"
| "dumps_text level (JInt i) = int_str i"
| "dumps_text level (JFloat r) = json_float r"
| "dumps_text level (JStr s) = json_string s"
| "dumps_text level (JArr xs) =
     (if xs = [] then ''[]''
      else ''['' @ newline_indent (Suc level)
           @ py_join ('','' @ newline_indent (Suc level)) (map (dumps_text (Suc level)) xs)
           @ newline_indent level @ '']'')"
| "dumps_text level (JObj kvs) =
     (if kvs = [] then ''{}''
      else ''{'' @ newline_indent (Suc level)
           @ py_join ('','' @ newline_indent (Suc level))
               (map (\<lambda>(k, v). json_string k @ '': '' @ dumps_text (Suc level) v) kvs)
           @ newline_indent level @ ''}'')"

text \<open>The call itself: the text at level 0, unless the stack is exhausted on the way.\<close>

definition dumps :: "stack \<Rightarrow> json \<Rightarrow> error + string" where
  "dumps st x = (if dumps_exhausts st x then Inl RecursionError else Inr (dumps_text 0 x))"

section \<open>The analysis of an event\<close>

subsection \<open>Step 1: metadata\<close>

text \<open>
  \<^verbatim>\<open>event_type = event.get("type", "unknown_type")\<close>,
  \<^verbatim>\<open>data_object = event.get("data", {}).get("object", {})\<close>,
  \<^verbatim>\<open>object_id = data_object.get("id", "unknown_id")\<close>: three calls of \<^verbatim>\<open>get\<close>, each on
  whatever the one before returned, none of them inside the \<^verbatim>\<open>try\<close>.
\<close>

definition extract_metadata :: "json \<Rightarrow> error + (json \<times> json \<times> json)" where
  "extract_metadata event =
     (case py_get event ''type'' (JStr ''unknown_type'') of
        Inl e \<Rightarrow> Inl e
      | Inr event_type \<Rightarrow>
     (case py_get event ''data'' (JObj []) of
        Inl e \<Rightarrow> Inl e
      | Inr data \<Rightarrow>
     (case py_get data ''object'' (JObj []) of
        Inl e \<Rightarrow> Inl e
      | Inr data_object \<Rightarrow>
     (case py_get data_object ''id'' (JStr ''unknown_id'') of
        Inl e \<Rightarrow> Inl e
      | Inr object_id \<Rightarrow> Inr (event_type, data_object, object_id)))))"

text \<open>
  \<^verbatim>\<open>logger.info(f"Analyzing event: {event_type} (ID: {object_id})")\<close>: the message is built
  before the call, by \<^verbatim>\<open>str()\<close> of the type, then of the id. The call itself writes the
  message to the log and returns.
\<close>

definition log_message :: "stack \<Rightarrow> json \<Rightarrow> json \<Rightarrow> error + string" where
  "log_message st event_type object_id =
     (case py_str st event_type of
        Inl e \<Rightarrow> Inl e
      | Inr type_text \<Rightarrow>
     (case py_str st object_id of
        Inl e \<Rightarrow> Inl e
      | Inr id_text \<Rightarrow> Inr (''Analyzing event: '' @ type_text @ '' (ID: '' @ id_text @ '')'')))"

subsection \<open>Step 2: the prompts\<close>

definition system_prompt :: string where
  \<open>system_prompt = concat [
    ''You are an expert Stripe technical consultant and business analyst. Your goal is to parse raw JSON webhook events and translate them into clear, actionable insights for a non-technical stakeholder.\<newline>'',
    ''\<newline>'',
    ''RULES:\<newline>'',
    ''1. Output valid JSON ONLY. No markdown, no commentary.\<newline>'',
    ''2. Be concise but specific. Avoid generic advice like 'check logs'.\<newline>'',
    ''3. Derive impact level conservatively: failures/disputes are HIGH, warnings/upcoming invoices are LOW/MEDIUM.\<newline>'',
    ''4. 'root_cause' should explain the technical reason (e.g., 'Insufficient funds', 'Expired card').'']\<close>

definition user_prompt :: "string \<Rightarrow> string \<Rightarrow> string" where
  \<open>user_prompt event_type event_str = concat [
    ''\<newline>'',
    ''Analyze the following Stripe webhook event.\<newline>'',
    ''\<newline>'',
    ''Event Type: '',
    event_type,
    ''\<newline>'',
    ''\<newline>'',
    ''Raw Payload:\<newline>'',
    event_str,
    ''\<newline>'',
    ''\<newline>'',
    ''OUTPUT INSTRUCTIONS:\<newline>'',
    ''1. 'summary': Provide a 1-sentence executive summary of what happened.\<newline>'',
    ''2. 'root_cause': Extract the specific failure code or reason if present (e.g., 'generic_decline', 'insufficient_funds'). If success, state "Successful transaction".\<newline>'',
    ''3. 'customer_impact_level':\<newline>'',
    ''   - HIGH: Payment failed, dispute created, subscription canceled unexpectedly.\<newline>'',
    ''   - MEDIUM: Payment dispute won, subscription updated.\<newline>'',
    ''   - LOW: Payout paid, invoice created, payment succeeded.\<newline>'',
    ''4. 'recommended_actions': \<newline>'',
    ''   - Propose 2-3 specific steps.\<newline>'',
    ''   - Example 1: "Contact customer [email/ID] to update payment method."\<newline>'',
    ''   - Example 2: "Review dispute evidence for charge [ID]."\<newline>'',
    ''\<newline>'',
    ''Output STRICT JSON matching this schema:\<newline>'',
    ''{\<newline>'',
    ''  "event_type": "'',
    event_type,
    ''",\<newline>'',
    ''  "summary": "...",\<newline>'',
    ''  "root_cause": "...",\<newline>'',
    ''  "customer_impact_level": "low | medium | high",\<newline>'',
    ''  "recommended_actions": ["..."]\<newline>'',
    ''}\<newline>'']\<close>

text \<open>
  The prompts for an event whose metadata has been read: the event itself, whole, goes
  through \<^verbatim>\<open>json.dumps(event, indent=2)\<close>, then the f-string of the user prompt puts the
  type through \<^verbatim>\<open>str()\<close>. Either can raise, and neither is inside the \<^verbatim>\<open>try\<close>.
\<close>

definition build_prompts :: "stack \<Rightarrow> json \<Rightarrow> json \<Rightarrow> error + (string \<times> string)" where
  "build_prompts st event_type event =
     (case dumps st event of
        Inl e \<Rightarrow> Inl e
      | Inr event_str \<Rightarrow>
     (case py_str st event_type of
        Inl e \<Rightarrow> Inl e
      | Inr type_text \<Rightarrow> Inr (system_prompt, user_prompt type_text event_str)))"

subsection \<open>Step 3: the request\<close>

definition OPENROUTER_BASE_URL :: string where
  "OPENROUTER_BASE_URL = ''https://openrouter.ai/api/v1/chat/completions''"

definition OPENROUTER_MODEL :: string where
  "OPENROUTER_MODEL = ''amazon/nova-2-lite-v1:free''"

record request =
  req_url :: string
  req_json :: json
  req_headers :: "(string \<times> string) list"
  req_timeout :: json

text \<open>\<^verbatim>\<open>OPENROUTER_API_KEY\<close> is what \<^verbatim>\<open>os.getenv\<close> returned: \<^verbatim>\<open>None\<close> or a string.\<close>

definition build_request :: "string option \<Rightarrow> string \<Rightarrow> string \<Rightarrow> request" where
  "build_request api_key system_text user_text =
     \<lparr> req_url = OPENROUTER_BASE_URL,
       req_json = JObj [
         (''model'', JStr OPENROUTER_MODEL),
         (''messages'', JArr [
            JObj [(''role'', JStr ''system''), (''content'', JStr system_text)],
            JObj [(''role'', JStr ''user''), (''content'', JStr user_text)]]),
         (''temperature'', JFloat ''0.2'')],
       req_headers = [
         (''Authorization'',
            ''Bearer '' @ (case api_key of None \<Rightarrow> ''None'' | Some k \<Rightarrow> k)),
         (''HTTP-Referer'', ''http://localhost''),
         (''X-Title'', ''StripeEventExplainer''),
         (''Content-Type'', ''application/json'')],
       req_timeout = JFloat ''30.0'' \<rparr>"

text \<open>
  What the completion service does with the one request, by the statement of the
  \<^verbatim>\<open>try\<close> block that meets it: \<^verbatim>\<open>client.post\<close> raises (no connection, timeout),
  \<^verbatim>\<open>raise_for_status\<close> raises (an error status), \<^verbatim>\<open>response.json()\<close> raises (the body is
  not JSON), or \<^verbatim>\<open>response.json()\<close> returns a value.
\<close>

datatype reply = PostRaises | StatusRaises | JsonRaises | Body json

subsection \<open>Steps 3 to 5: the response\<close>

text \<open>\<^verbatim>\<open>result_json["choices"][0]["message"]["content"]\<close>\<close>

definition extract_content :: "json \<Rightarrow> error + json" where
  "extract_content result_json =
     (case py_getitem result_json ''choices'' of
        Inl e \<Rightarrow> Inl e
      | Inr choices \<Rightarrow>
     (case py_getitem0 choices of
        Inl e \<Rightarrow> Inl e
      | Inr choice \<Rightarrow>
     (case py_getitem choice ''message'' of
        Inl e \<Rightarrow> Inl e
      | Inr message \<Rightarrow> py_getitem message ''content'')))"

text \<open>\<^verbatim>\<open>content.replace("```json", "").replace("```", "").strip()\<close>\<close>

definition clean :: "string \<Rightarrow> string" where
  "clean content = strip (replace ''```'' [] (replace ''```json'' [] content))"

fun clean_content :: "json \<Rightarrow> error + string" where
  "clean_content (JStr content) = Inr (clean content)"
| "clean_content _ = Inl AttributeError"

text \<open>
  The normalisation of the impact level. The second test reads back the value the line
  before has just stored, the lower-cased string.
\<close>

definition normalize :: "json \<Rightarrow> error + json" where
  "normalize parsed_result =
     (case py_in ''customer_impact_level'' parsed_result of
        Inl e \<Rightarrow> Inl e
      | Inr False \<Rightarrow> Inr parsed_result
      | Inr True \<Rightarrow>
     (case py_getitem parsed_result ''customer_impact_level'' of
        Inl e \<Rightarrow> Inl e
      | Inr level \<Rightarrow>
     (case py_lower level of
        Inl e \<Rightarrow> Inl e
      | Inr lowered \<Rightarrow>
     (case py_setitem parsed_result ''customer_impact_level'' (JStr lowered) of
        Inl e \<Rightarrow> Inl e
      | Inr parsed_result' \<Rightarrow>
          if lowered \<notin> set [''low'', ''medium'', ''high'']
          then py_setitem parsed_result' ''customer_impact_level'' (JStr ''medium'')
          else Inr parsed_result'))))"

text \<open>
  \<^verbatim>\<open>json.loads\<close> belongs to Python's library, not to this program: it is the parameter
  \<open>loads\<close>, \<open>None\<close> where it raises.
\<close>

definition handle_response :: "(string \<Rightarrow> json option) \<Rightarrow> json \<Rightarrow> error + json" where
  "handle_response loads result_json =
     (case extract_content result_json of
        Inl e \<Rightarrow> Inl e
      | Inr content \<Rightarrow>
     (case clean_content content of
        Inl e \<Rightarrow> Inl e
      | Inr cleaned_content \<Rightarrow>
     (case loads cleaned_content of
        None \<Rightarrow> Inl JSONDecodeError
      | Some parsed_result \<Rightarrow> normalize parsed_result)))"

text \<open>
  The body of the \<^verbatim>\<open>try\<close>: the requests it sends, and its result or the exception that
  leaves it. \<^verbatim>\<open>not OPENROUTER_API_KEY\<close> holds for \<^verbatim>\<open>None\<close> and for the empty string. The
  message of its last line, \<^verbatim>\<open>f"Successfully analyzed event: {event_type}"\<close>, formats the
  type as the first log line did, which has returned when the \<^verbatim>\<open>try\<close> is entered.
\<close>

definition llm_attempt ::
  "string option \<Rightarrow> (string \<Rightarrow> json option) \<Rightarrow> reply \<Rightarrow> request \<Rightarrow> request list \<times> (error + json)" where
  "llm_attempt api_key loads reply req =
     (if api_key = None \<or> api_key = Some [] then ([], Inl ValueError)
      else ([req],
        (case reply of
           PostRaises \<Rightarrow> Inl RequestError
         | StatusRaises \<Rightarrow> Inl HTTPStatusError
         | JsonRaises \<Rightarrow> Inl JSONDecodeError
         | Body result_json \<Rightarrow> handle_response loads result_json)))"

subsection \<open>Step 4 of the source: the fallback\<close>

definition fallback_impact :: "json \<Rightarrow> error + string" where
  "fallback_impact event_type =
     (case py_in ''payment_failed'' event_type of
        Inl e \<Rightarrow> Inl e
      | Inr True \<Rightarrow> Inr ''high''
      | Inr False \<Rightarrow>
     (case py_in ''dispute'' event_type of
        Inl e \<Rightarrow> Inl e
      | Inr True \<Rightarrow> Inr ''high''
      | Inr False \<Rightarrow>
     (case py_in ''invoice.upcoming'' event_type of
        Inl e \<Rightarrow> Inl e
      | Inr True \<Rightarrow> Inr ''low''
      | Inr False \<Rightarrow> Inr ''medium'')))"

text \<open>The impact is computed first, then the result is built, its summary by an f-string.\<close>

definition fallback_response :: "stack \<Rightarrow> json \<Rightarrow> error + json" where
  "fallback_response st event_type =
     (case fallback_impact event_type of
        Inl e \<Rightarrow> Inl e
      | Inr impact \<Rightarrow>
     (case py_str st event_type of
        Inl e \<Rightarrow> Inl e
      | Inr type_text \<Rightarrow> Inr (JObj [
          (''event_type'', event_type),
          (''summary'', JStr (''Received event '' @ type_text
                              @ ''. Automated analysis unavailable.'')),
          (''root_cause'', JStr ''N/A (LLM unavailable)''),
          (''customer_impact_level'', JStr impact),
          (''recommended_actions'', JArr [JStr ''Check Stripe Dashboard manually.''])])))"

subsection \<open>The whole function\<close>

text \<open>
  The result is the list of requests sent and either the returned value or the exception
  that reaches the caller. An exception of the \<^verbatim>\<open>try\<close> body is caught and answered by the
  fallback; one raised before the \<^verbatim>\<open>try\<close> (by the extraction, the first log line or the
  prompts), or by the handler itself, is not.
\<close>

definition analyze_stripe_event ::
  "stack \<Rightarrow> string option \<Rightarrow> (string \<Rightarrow> json option) \<Rightarrow> reply \<Rightarrow> json
     \<Rightarrow> request list \<times> (error + json)" where
  "analyze_stripe_event st api_key loads reply event =
     (case extract_metadata event of
        Inl e \<Rightarrow> ([], Inl e)
      | Inr (event_type, data_object, object_id) \<Rightarrow>
     (case log_message st event_type object_id of
        Inl e \<Rightarrow> ([], Inl e)
      | Inr message \<Rightarrow>
     (case build_prompts st event_type event of
        Inl e \<Rightarrow> ([], Inl e)
      | Inr (system_text, user_text) \<Rightarrow>
          (case llm_attempt api_key loads reply (build_request api_key system_text user_text) of
             (sent, Inr parsed_result) \<Rightarrow> (sent, Inr parsed_result)
           | (sent, Inl e) \<Rightarrow> (sent, fallback_response st event_type)))))"

section \<open>The specification's side\<close>

text \<open>
  The data model of the specification reads a field of the event with a default: an absent
  field, at any level, stands for its default.
\<close>

definition field_or :: "json \<Rightarrow> string \<Rightarrow> json \<Rightarrow> json" where
  "field_or x k d = (case x of JObj kvs \<Rightarrow> (case map_of kvs k of None \<Rightarrow> d | Some v \<Rightarrow> v) | _ \<Rightarrow> d)"

definition spec_event_type :: "json \<Rightarrow> json" where
  "spec_event_type event = field_or event ''type'' (JStr ''unknown_type'')"

definition spec_data_object :: "json \<Rightarrow> json" where
  "spec_data_object event = field_or (field_or event ''data'' (JObj [])) ''object'' (JObj [])"

definition spec_object_id :: "json \<Rightarrow> json" where
  "spec_object_id event = field_or (spec_data_object event) ''id'' (JStr ''unknown_id'')"

fun is_object :: "json \<Rightarrow> bool" where
  "is_object (JObj kvs) = True"
| "is_object _ = False"

definition well_shaped :: "json \<Rightarrow> bool" where
  "well_shaped event \<longleftrightarrow>
     is_object event \<and> is_object (field_or event ''data'' (JObj [])) \<and> is_object (spec_data_object event)"

fun iterable :: "json \<Rightarrow> bool" where
  "iterable (JStr s) = True"
| "iterable (JArr xs) = True"
| "iterable (JObj kvs) = True"
| "iterable _ = False"

text \<open>
  The text of \<^verbatim>\<open>str(v)\<close> when it returns, and whether it raises. An event fits the stack
  when none of the three things the function formats before the \<^verbatim>\<open>try\<close> exhausts it: the
  type and the id in the log line, the event in \<^verbatim>\<open>json.dumps\<close>.
\<close>

definition str_text :: "json \<Rightarrow> string" where
  "str_text v = (case v of JStr s \<Rightarrow> s | _ \<Rightarrow> py_repr v)"

definition str_raises :: "stack \<Rightarrow> json \<Rightarrow> bool" where
  "str_raises st v =
     (case v of JArr xs \<Rightarrow> str_exhausts st v | JObj kvs \<Rightarrow> str_exhausts st v | _ \<Rightarrow> False)"

definition fits :: "stack \<Rightarrow> json \<Rightarrow> bool" where
  "fits st event \<longleftrightarrow>
     \<not> str_raises st (spec_event_type event) \<and> \<not> str_raises st (spec_object_id event)
     \<and> \<not> dumps_exhausts st event"

text \<open>The one request the function sends for an event, when it sends one.\<close>

definition the_request :: "string option \<Rightarrow> json \<Rightarrow> request" where
  "the_request api_key event =
     build_request api_key system_prompt
       (user_prompt (str_text (spec_event_type event)) (dumps_text 0 event))"

text \<open>
  A sample stack, for the examples: one that \<^verbatim>\<open>str()\<close> and \<^verbatim>\<open>json.dumps\<close> exhaust on the
  values nested deeper than a limit, and on no others. \<open>nest n x\<close> wraps \<open>x\<close> in \<open>n\<close>
  lists.
\<close>

fun nesting :: "json \<Rightarrow> nat" where
  "nesting (JArr xs) = Suc (foldr max (map nesting xs) 0)"
| "nesting (JObj kvs) = Suc (foldr max (map (\<lambda>(k, v). nesting v) kvs) 0)"
| "nesting _ = 0"

fun nest :: "nat \<Rightarrow> json \<Rightarrow> json" where
  "nest 0 x = x"
| "nest (Suc n) x = JArr [nest n x]"

definition sample_stack :: "nat \<Rightarrow> stack" where
  "sample_stack limit =
     \<lparr> str_exhausts = (\<lambda>v. limit < nesting v), dumps_exhausts = (\<lambda>v. limit < nesting v) \<rparr>"

definition spec_impact :: "string \<Rightarrow> string" where
  "spec_impact event_type =
     (if sublist ''payment_failed'' event_type then ''high''
      else if sublist ''dispute'' event_type then ''high''
      else if sublist ''invoice.upcoming'' event_type then ''low''
      else ''medium'')"

definition completion :: "string \<Rightarrow> json" where
  "completion content =
     JObj [(''choices'', JArr [JObj [(''message'', JObj [(''content'', JStr content)])]])]"


text \<open>
  The frame of the success path: two objects with the same keys in the same order, and the
  same values except, possibly, under one key.
\<close>

fun string_or_absent :: "json option \<Rightarrow> bool" where
  "string_or_absent None = True"
| "string_or_absent (Some (JStr s)) = True"
| "string_or_absent (Some _) = False"

definition same_except :: "string \<Rightarrow> (string \<times> json) list \<Rightarrow> (string \<times> json) list \<Rightarrow> bool" where
  "same_except key kvs kvs' =
     list_all2 (\<lambda>p q. fst p = fst q \<and> (fst p = key \<or> snd p = snd q)) kvs kvs'"

text \<open>
  Content with fence markers in it: a first piece of text, then markers, each followed by
  its piece of text. The pieces are plain, without a backtick, so the markers are all the
  backticks there are; a piece that follows a bare \<^verbatim>\<open>```\<close> does not start with \<^verbatim>\<open>json\<close>,
  which would make the marker a \<^verbatim>\<open>```json\<close>.
\<close>

definition plain :: "string \<Rightarrow> bool" where
  "plain p \<longleftrightarrow> CHR ''`'' \<notin> set p"

fun markers_ok :: "(string \<times> string) list \<Rightarrow> bool" where
  "markers_ok [] = True"
| "markers_ok ((m, q) # rest) =
     ((m = ''```json'' \<or> (m = ''```'' \<and> \<not> prefix ''json'' q)) \<and> plain q \<and> markers_ok rest)"

definition with_markers :: "string \<Rightarrow> (string \<times> string) list \<Rightarrow> string" where
  "with_markers p mps = p @ concat (map (\<lambda>(m, q). m @ q) mps)"

definition without_markers :: "string \<Rightarrow> (string \<times> string) list \<Rightarrow> string" where
  "without_markers p mps = p @ concat (map snd mps)"

definition marked_tail :: "(string \<times> string) list \<Rightarrow> string" where
  "marked_tail mps = concat (map (\<lambda>(m, q). m @ q) mps)"

definition fences_only :: "(string \<times> string) list \<Rightarrow> string" where
  "fences_only mps = concat (map (\<lambda>(m, q). (if m = ''```json'' then [] else m) @ q) mps)"


section \<open>Strings: containment, replacement, stripping\<close>

lemma contains_iff_sublist: "contains sub s \<longleftrightarrow> sublist sub s"
  by (induction s) (auto simp: sublist_Cons_right)

lemma sublist_trans: "sublist xs ys \<Longrightarrow> sublist ys zs \<Longrightarrow> sublist xs zs"
  unfolding sublist_def by (metis append.assoc)

lemma replace_skip:
  "old \<noteq> [] \<Longrightarrow> \<not> prefix old (c # cs) \<Longrightarrow> replace old new (c # cs) = c # replace old new cs"
  by simp

lemma replace_hit:
  "old \<noteq> [] \<Longrightarrow> prefix old (c # cs) \<Longrightarrow>
   replace old new (c # cs) = new @ replace old new (drop (length old) (c # cs))"
  by simp

lemma replace_absent: "old \<noteq> [] \<Longrightarrow> \<not> sublist old s \<Longrightarrow> replace old new s = s"
  by (induction s) (auto simp: sublist_Cons_right)

lemma prefix_ticks3: "prefix ''```'' (c # cs) \<longleftrightarrow> c = CHR ''`'' \<and> prefix ''``'' cs"
  by auto

lemma prefix_ticks2: "prefix ''``'' (c # cs) \<longleftrightarrow> c = CHR ''`'' \<and> prefix ''`'' cs"
  by auto

lemma prefix_ticks1: "prefix ''`'' (c # cs) \<longleftrightarrow> c = CHR ''`''"
  by auto

lemma replace_ticks_head:
  assumes p: "prefix ''``'' (replace ''```'' [] s)"
  shows "prefix ''``'' s"
proof (rule ccontr)
  assume n: "\<not> prefix ''``'' s"
  show False
  proof (cases s)
    case Nil
    with p show False by simp
  next
    case (Cons c cs)
    from n Cons have n3: "\<not> prefix ''```'' (c # cs)"
      unfolding prefix_ticks3 prefix_ticks2 by (cases cs) (auto simp: prefix_ticks2)
    have r: "replace ''```'' [] (c # cs) = c # replace ''```'' [] cs"
      by (rule replace_skip[OF _ n3]) simp
    from p have p1: "prefix ''``'' (c # replace ''```'' [] cs)" unfolding Cons r .
    then have c: "c = CHR ''`''" and p2: "prefix ''`'' (replace ''```'' [] cs)"
      unfolding prefix_ticks2 by blast+
    from n have n1: "\<not> prefix ''`'' cs" unfolding Cons prefix_ticks2 using c by blast
    show False
    proof (cases cs)
      case Nil
      with p2 show False by simp
    next
      case c2: (Cons d ds)
      from n1 have d: "d \<noteq> CHR ''`''" unfolding c2 prefix_ticks1 .
      then have nd: "\<not> prefix ''```'' (d # ds)" unfolding prefix_ticks3 by blast
      have rd: "replace ''```'' [] (d # ds) = d # replace ''```'' [] ds"
        by (rule replace_skip[OF _ nd]) simp
      from p2 have "prefix ''`'' (d # replace ''```'' [] ds)" unfolding c2 rd .
      with d show False unfolding prefix_ticks1 by blast
    qed
  qed
qed

lemma replace_ticks_gone: "\<not> sublist ''```'' (replace ''```'' [] s)"
proof (induction s rule: length_induct)
  case (1 s)
  show ?case
  proof (cases s)
    case Nil
    then show ?thesis by simp
  next
    case (Cons c cs)
    show ?thesis
    proof (cases "prefix ''```'' (c # cs)")
      case True
      have "length (drop 3 (c # cs)) < length s" using Cons by simp
      with 1 have ih: "\<not> sublist ''```'' (replace ''```'' [] (drop 3 (c # cs)))" by blast
      have h: "replace ''```'' [] (c # cs) = [] @ replace ''```'' [] (drop (length ''```'') (c # cs))"
        by (rule replace_hit[OF _ True]) simp
      have l: "drop (length ''```'') (c # cs) = drop 3 (c # cs)" by (simp add: numeral_3_eq_3)
      show ?thesis unfolding Cons h l using ih by simp
    next
      case False
      have r: "replace ''```'' [] (c # cs) = c # replace ''```'' [] cs"
        by (rule replace_skip[OF _ False]) simp
      have ih: "\<not> sublist ''```'' (replace ''```'' [] cs)" using 1 Cons by simp
      have "\<not> prefix ''```'' (c # replace ''```'' [] cs)"
      proof
        assume "prefix ''```'' (c # replace ''```'' [] cs)"
        then have "c = CHR ''`''" and "prefix ''``'' (replace ''```'' [] cs)"
          unfolding prefix_ticks3 by blast+
        with replace_ticks_head[of cs] have "prefix ''```'' (c # cs)"
          unfolding prefix_ticks3 by blast
        with False show False by blast
      qed
      with ih have "\<not> sublist ''```'' (c # replace ''```'' [] cs)"
        unfolding sublist_Cons_right by blast
      with r Cons show ?thesis by simp
    qed
  qed
qed

lemma sublist_strip: "sublist (strip s) s"
proof -
  have a: "suffix (dropWhile isspace s) s" by (rule suffix_dropWhile)
  have "suffix (dropWhile isspace (rev (dropWhile isspace s))) (rev (dropWhile isspace s))"
    by (rule suffix_dropWhile)
  then have "prefix (strip s) (dropWhile isspace s)"
    unfolding strip_def by (metis rev_rev_ident suffix_to_prefix)
  then show ?thesis using a
    by (meson prefix_imp_sublist suffix_imp_sublist sublist_trans)
qed

lemma clean_no_ticks: "\<not> sublist ''```'' (clean content)"
  unfolding clean_def
  using replace_ticks_gone sublist_strip sublist_trans by blast

lemma fence_open_kept:
  "\<not> sublist ''```'' t \<Longrightarrow> replace ''```json'' [] (t @ ''```'') = t @ ''```''"
proof (induction t)
  case Nil
  show ?case by simp
next
  case (Cons c cs)
  then have np: "\<not> prefix ''```'' (c # cs)" and ns: "\<not> sublist ''```'' cs"
    by (simp_all add: sublist_Cons_right del: Cons_prefix_Cons)
  have nj: "\<not> prefix ''```json'' (c # cs @ ''```'')"
  proof (cases cs)
    case Nil
    then show ?thesis by auto
  next
    case c2: (Cons d ds)
    show ?thesis
    proof (cases ds)
      case Nil
      with c2 show ?thesis by auto
    next
      case (Cons e es)
      with c2 np show ?thesis by auto
    qed
  qed
  have "replace ''```json'' [] (c # cs @ ''```'') = c # replace ''```json'' [] (cs @ ''```'')"
    by (rule replace_skip[OF _ nj]) simp
  with Cons.IH[OF ns] show ?case by simp
qed

lemma fence_close_removed:
  "\<not> sublist ''```'' t \<Longrightarrow> replace ''```'' [] (t @ ''```'') = t"
proof (induction t)
  case Nil
  show ?case by simp
next
  case (Cons c cs)
  then have np: "\<not> prefix ''```'' (c # cs)" and ns: "\<not> sublist ''```'' cs"
    by (simp_all add: sublist_Cons_right del: Cons_prefix_Cons)
  show ?case
  proof (cases "prefix ''```'' (c # cs @ ''```'')")
    case False
    have "replace ''```'' [] (c # cs @ ''```'') = c # replace ''```'' [] (cs @ ''```'')"
      by (rule replace_skip[OF _ False]) simp
    with Cons.IH[OF ns] show ?thesis by simp
  next
    case True
    have short: "c # cs = ''`'' \<or> c # cs = ''``''"
    proof (cases cs)
      case Nil
      with True show ?thesis by auto
    next
      case c2: (Cons d ds)
      show ?thesis
      proof (cases ds)
        case Nil
        with c2 True show ?thesis by auto
      next
        case (Cons e es)
        with c2 True np show ?thesis by auto
      qed
    qed
    then show ?thesis
    proof
      assume "c # cs = ''`''"
      then have "replace ''```'' [] ((c # cs) @ ''```'') = c # cs" by simp
      then show ?thesis by simp
    next
      assume "c # cs = ''``''"
      then have "replace ''```'' [] ((c # cs) @ ''```'') = c # cs" by simp
      then show ?thesis by simp
    qed
  qed
qed

lemma clean_fenced:
  assumes "\<not> sublist ''```'' t"
  shows "clean (''```json'' @ t @ ''```'') = strip t" and "clean t = strip t"
proof -
  have j: "\<not> sublist ''```json'' t"
  proof
    assume "sublist ''```json'' t"
    moreover have "sublist ''```'' ''```json''" by (simp add: sublist_code)
    ultimately have "sublist ''```'' t" using sublist_trans by blast
    with assms show False by simp
  qed
  have "replace ''```json'' [] (''```json'' @ t @ ''```'') = replace ''```json'' [] (t @ ''```'')"
    by simp
  then show "clean (''```json'' @ t @ ''```'') = strip t"
    using assms by (simp add: clean_def fence_open_kept fence_close_removed del: replace.simps)
  show "clean t = strip t"
    using assms j by (simp add: clean_def replace_absent)
qed

text \<open>Content with markers: the two passes of \<^verbatim>\<open>replace\<close>, marker by marker.\<close>

lemma replace_plain:
  "plain a \<Longrightarrow> replace (CHR ''`'' # t) new (a @ rest) = a @ replace (CHR ''`'' # t) new rest"
proof (induction a)
  case Nil
  show ?case by simp
next
  case (Cons x xs)
  then have x: "x \<noteq> CHR ''`''" and p: "plain xs" by (auto simp: plain_def)
  from x have n: "\<not> prefix (CHR ''`'' # t) (x # xs @ rest)" by auto
  have "replace (CHR ''`'' # t) new (x # xs @ rest) = x # replace (CHR ''`'' # t) new (xs @ rest)"
    by (rule replace_skip[OF _ n]) simp
  with Cons.IH[OF p] show ?case by simp
qed

lemma replace_json_marker: "replace ''```json'' [] (''```json'' @ rest) = replace ''```json'' [] rest"
  by simp

lemma replace_fence_marker: "replace ''```'' [] (''```'' @ rest) = replace ''```'' [] rest"
  by simp

lemma no_json_after_fence:
  assumes "plain q" and "\<not> prefix ''json'' q" and "r = [] \<or> prefix ''```'' r"
  shows "\<not> prefix ''json'' (q @ r)"
proof
  assume "prefix ''json'' (q @ r)"
  with assms(2) obtain us where us: "''json'' = q @ us" and pr: "prefix us r"
    by (auto simp: prefix_append)
  from us assms(2) have "us \<noteq> []" by auto
  then obtain u us' where u: "us = u # us'" by (cases us) auto
  from us u have "u \<in> set ''json''" by (metis in_set_conv_decomp)
  then have "u \<noteq> CHR ''`''" by auto
  moreover from pr u assms(3) have "u = CHR ''`''" by (cases r) auto
  ultimately show False by simp
qed

lemma fence_kept_by_json_pass:
  assumes "plain q" and "\<not> prefix ''json'' q" and "r = [] \<or> prefix ''```'' r"
  shows "replace ''```json'' [] (''```'' @ q @ r) = ''```'' @ replace ''```json'' [] (q @ r)"
proof -
  let ?x = "q @ r"
  have j: "\<not> prefix ''json'' ?x" by (rule no_json_after_fence[OF assms])
  have t: "\<not> prefix ''`'' ?x \<or> prefix ''```'' ?x"
  proof (cases q)
    case Nil
    with assms(3) show ?thesis by (cases r) auto
  next
    case (Cons c cs)
    with assms(1) show ?thesis by (auto simp: plain_def)
  qed
  have n0: "\<not> prefix ''```json'' (CHR ''`'' # CHR ''`'' # CHR ''`'' # ?x)" using j by auto
  have n1: "\<not> prefix ''```json'' (CHR ''`'' # CHR ''`'' # ?x)"
  proof (cases ?x)
    case Nil
    then show ?thesis by auto
  next
    case c1: (Cons a as)
    show ?thesis
    proof (cases as)
      case Nil
      with c1 show ?thesis by auto
    next
      case (Cons b bs)
      with c1 t show ?thesis by auto
    qed
  qed
  have n2: "\<not> prefix ''```json'' (CHR ''`'' # ?x)"
  proof (cases ?x)
    case Nil
    then show ?thesis by auto
  next
    case c1: (Cons a as)
    show ?thesis
    proof (cases as)
      case Nil
      with c1 show ?thesis by auto
    next
      case c2: (Cons b bs)
      show ?thesis
      proof (cases bs)
        case Nil
        with c1 c2 show ?thesis by auto
      next
        case (Cons c cs)
        with c1 c2 t show ?thesis by auto
      qed
    qed
  qed
  have "replace ''```json'' [] (CHR ''`'' # CHR ''`'' # CHR ''`'' # ?x)
      = CHR ''`'' # replace ''```json'' [] (CHR ''`'' # CHR ''`'' # ?x)"
    by (rule replace_skip[OF _ n0]) simp
  also have "replace ''```json'' [] (CHR ''`'' # CHR ''`'' # ?x)
      = CHR ''`'' # replace ''```json'' [] (CHR ''`'' # ?x)"
    by (rule replace_skip[OF _ n1]) simp
  also have "replace ''```json'' [] (CHR ''`'' # ?x) = CHR ''`'' # replace ''```json'' [] ?x"
    by (rule replace_skip[OF _ n2]) simp
  finally show ?thesis by simp
qed

lemma marked_tail_head:
  "markers_ok mps \<Longrightarrow> marked_tail mps = [] \<or> prefix ''```'' (marked_tail mps)"
  by (cases mps) (auto simp: marked_tail_def)

lemma json_pass:
  "markers_ok mps \<Longrightarrow> replace ''```json'' [] (marked_tail mps) = fences_only mps"
proof (induction mps)
  case Nil
  show ?case by (simp add: marked_tail_def fences_only_def)
next
  case (Cons mq rest)
  obtain m q where mq: "mq = (m, q)" by (cases mq)
  from Cons.prems mq have ok: "markers_ok rest" and pq: "plain q"
    and m: "m = ''```json'' \<or> (m = ''```'' \<and> \<not> prefix ''json'' q)" by auto
  have ih: "replace ''```json'' [] (marked_tail rest) = fences_only rest" by (rule Cons.IH[OF ok])
  have step: "replace ''```json'' [] (q @ marked_tail rest) = q @ fences_only rest"
    using replace_plain[OF pq, of "''``json''" "[]" "marked_tail rest"] ih by simp
  have mt: "marked_tail (mq # rest) = m @ q @ marked_tail rest"
    by (simp add: marked_tail_def mq)
  from m show ?case
  proof
    assume j: "m = ''```json''"
    have "replace ''```json'' [] (''```json'' @ q @ marked_tail rest)
        = replace ''```json'' [] (q @ marked_tail rest)" by (rule replace_json_marker)
    with step j mt show ?thesis by (simp add: fences_only_def mq)
  next
    assume b: "m = ''```'' \<and> \<not> prefix ''json'' q"
    have "replace ''```json'' [] (''```'' @ q @ marked_tail rest)
        = ''```'' @ replace ''```json'' [] (q @ marked_tail rest)"
      by (rule fence_kept_by_json_pass[OF pq _ marked_tail_head[OF ok]]) (use b in simp)
    with step b mt show ?thesis by (simp add: fences_only_def mq)
  qed
qed

lemma fence_pass:
  "markers_ok mps \<Longrightarrow> replace ''```'' [] (fences_only mps) = concat (map snd mps)"
proof (induction mps)
  case Nil
  show ?case by (simp add: fences_only_def)
next
  case (Cons mq rest)
  obtain m q where mq: "mq = (m, q)" by (cases mq)
  from Cons.prems mq have ok: "markers_ok rest" and pq: "plain q"
    and m: "m = ''```json'' \<or> m = ''```''" by auto
  have ih: "replace ''```'' [] (fences_only rest) = concat (map snd rest)" by (rule Cons.IH[OF ok])
  have step: "replace ''```'' [] (q @ fences_only rest) = q @ concat (map snd rest)"
    using replace_plain[OF pq, of "''``''" "[]" "fences_only rest"] ih by simp
  from m show ?case
  proof
    assume j: "m = ''```json''"
    then have "fences_only (mq # rest) = q @ fences_only rest" by (simp add: fences_only_def mq)
    with step show ?thesis by (simp add: mq)
  next
    assume b: "m = ''```''"
    then have f: "fences_only (mq # rest) = ''```'' @ q @ fences_only rest"
      by (simp add: fences_only_def mq)
    have "replace ''```'' [] (''```'' @ q @ fences_only rest)
        = replace ''```'' [] (q @ fences_only rest)" by (rule replace_fence_marker)
    with step f show ?thesis by (simp add: mq)
  qed
qed

lemma clean_with_markers:
  assumes "plain p" and "markers_ok mps"
  shows "clean (with_markers p mps) = strip (without_markers p mps)"
proof -
  have "replace ''```json'' [] (p @ marked_tail mps) = p @ fences_only mps"
    using replace_plain[OF assms(1), of "''``json''" "[]" "marked_tail mps"] json_pass[OF assms(2)]
    by simp
  moreover have "replace ''```'' [] (p @ fences_only mps) = p @ concat (map snd mps)"
    using replace_plain[OF assms(1), of "''``''" "[]" "fences_only mps"] fence_pass[OF assms(2)]
    by simp
  ultimately show ?thesis
    by (simp add: clean_def with_markers_def without_markers_def marked_tail_def)
qed

section \<open>The steps of the analysis\<close>

lemma py_get_object: "is_object x \<Longrightarrow> py_get x k d = Inr (field_or x k d)"
  by (cases x) (simp_all add: field_or_def)

lemma py_get_not_object: "\<not> is_object x \<Longrightarrow> py_get x k d = Inl AttributeError"
  by (cases x) simp_all

lemma extract_metadata_well_shaped:
  "well_shaped event \<Longrightarrow>
   extract_metadata event = Inr (spec_event_type event, spec_data_object event, spec_object_id event)"
  by (simp add: well_shaped_def extract_metadata_def py_get_object spec_event_type_def
      spec_data_object_def spec_object_id_def)

lemma extract_metadata_ill_shaped:
  "\<not> well_shaped event \<Longrightarrow> extract_metadata event = Inl AttributeError"
proof -
  assume n: "\<not> well_shaped event"
  show ?thesis
  proof (cases "is_object event")
    case False
    then show ?thesis by (simp add: extract_metadata_def py_get_not_object)
  next
    case ev: True
    show ?thesis
    proof (cases "is_object (field_or event ''data'' (JObj []))")
      case False
      with ev show ?thesis by (simp add: extract_metadata_def py_get_object py_get_not_object)
    next
      case True
      with ev n have "\<not> is_object (spec_data_object event)" by (simp add: well_shaped_def)
      with ev True show ?thesis
        by (simp add: extract_metadata_def py_get_object py_get_not_object spec_data_object_def)
    qed
  qed
qed

lemma py_str_cases:
  "py_str st v = (if str_raises st v then Inl RecursionError else Inr (str_text v))"
  by (cases v) (simp_all add: str_raises_def str_text_def)

lemma log_message_cases:
  "log_message st t i =
     (if str_raises st t \<or> str_raises st i then Inl RecursionError
      else Inr (''Analyzing event: '' @ str_text t @ '' (ID: '' @ str_text i @ '')''))"
  by (simp add: log_message_def py_str_cases)

lemma build_prompts_cases:
  "build_prompts st t event =
     (if dumps_exhausts st event \<or> str_raises st t then Inl RecursionError
      else Inr (system_prompt, user_prompt (str_text t) (dumps_text 0 event)))"
  by (simp add: build_prompts_def dumps_def py_str_cases)

lemma extract_content_completion: "extract_content (completion content) = Inr (JStr content)"
  by (simp add: extract_content_def completion_def)

lemma py_in_iterable: "iterable t \<Longrightarrow> \<exists>b. py_in s t = Inr b"
  by (cases t) simp_all

lemma py_in_not_iterable: "\<not> iterable t \<Longrightarrow> py_in s t = Inl TypeError"
  by (cases t) simp_all

lemma fallback_impact_iterable:
  "iterable t \<Longrightarrow> \<exists>i. fallback_impact t = Inr i"
  by (cases t) (simp_all add: fallback_impact_def split: bool.splits)

lemma fallback_impact_range:
  "fallback_impact t = Inr i \<Longrightarrow> i = ''low'' \<or> i = ''medium'' \<or> i = ''high''"
  by (auto simp: fallback_impact_def split: sum.splits bool.splits)

lemma fallback_response_iterable:
  "iterable t \<Longrightarrow> \<not> str_raises st t \<Longrightarrow> \<exists>r. fallback_response st t = Inr r"
  using fallback_impact_iterable[of t] by (auto simp: fallback_response_def py_str_cases)

lemma fallback_response_not_iterable:
  "\<not> iterable t \<Longrightarrow> fallback_response st t = Inl TypeError"
  by (simp add: fallback_response_def fallback_impact_def py_in_not_iterable)

lemma fallback_impact_string: "fallback_impact (JStr s) = Inr (spec_impact s)"
  by (simp add: fallback_impact_def spec_impact_def contains_iff_sublist)

lemma analyze_prepared:
  assumes "well_shaped event" and "fits st event"
  shows "analyze_stripe_event st api_key loads reply event =
     (case llm_attempt api_key loads reply (the_request api_key event) of
        (sent, Inr p) \<Rightarrow> (sent, Inr p)
      | (sent, Inl e) \<Rightarrow> (sent, fallback_response st (spec_event_type event)))"
  using assms(2)
  by (simp add: analyze_stripe_event_def extract_metadata_well_shaped[OF assms(1)]
      log_message_cases build_prompts_cases fits_def the_request_def)

lemma analyze_ill_shaped:
  "\<not> well_shaped event \<Longrightarrow>
   analyze_stripe_event st api_key loads reply event = ([], Inl AttributeError)"
  by (simp add: analyze_stripe_event_def extract_metadata_ill_shaped)

lemma analyze_exhausted:
  assumes "well_shaped event" and "\<not> fits st event"
  shows "analyze_stripe_event st api_key loads reply event = ([], Inl RecursionError)"
  using assms(2)
  by (auto simp: analyze_stripe_event_def extract_metadata_well_shaped[OF assms(1)]
      log_message_cases build_prompts_cases fits_def)

lemma key_present: "map_of kvs k = Some v \<Longrightarrow> k \<in> set (map fst kvs)"
  by (auto dest: map_of_SomeD intro: rev_image_eqI)

lemma normalize_absent:
  "map_of kvs ''customer_impact_level'' = None \<Longrightarrow> normalize (JObj kvs) = Inr (JObj kvs)"
  by (simp add: normalize_def map_of_eq_None_iff)

lemma normalize_string:
  assumes "map_of kvs ''customer_impact_level'' = Some (JStr s)"
  shows "normalize (JObj kvs) =
         Inr (JObj (AList.update ''customer_impact_level''
           (JStr (if lower s \<in> set [''low'', ''medium'', ''high''] then lower s else ''medium'')) kvs))"
  using assms key_present[OF assms] by (simp add: normalize_def)

lemma normalize_not_string:
  assumes "map_of kvs ''customer_impact_level'' = Some v" and "\<And>s. v \<noteq> JStr s"
  shows "normalize (JObj kvs) = Inl AttributeError"
proof (cases v)
  case (JStr s)
  with assms(2) show ?thesis by blast
qed (use assms(1) key_present[OF assms(1)] in \<open>simp_all add: normalize_def\<close>)

lemma normalize_level_range:
  assumes "normalize parsed = Inr r" and "py_getitem r ''customer_impact_level'' = Inr v"
  shows "v = JStr ''low'' \<or> v = JStr ''medium'' \<or> v = JStr ''high''"
proof (cases parsed)
  case (JObj kvs)
  show ?thesis
  proof (cases "map_of kvs ''customer_impact_level''")
    case None
    with JObj assms(1) have "r = JObj kvs" by (simp add: normalize_absent)
    with None assms(2) show ?thesis by simp
  next
    case (Some w)
    show ?thesis
    proof (cases "\<exists>s. w = JStr s")
      case True
      then obtain s where "w = JStr s" ..
      with Some JObj assms show ?thesis
        by (auto simp: normalize_string update_conv' split: if_splits)
    next
      case False
      with Some JObj assms show ?thesis by (simp add: normalize_not_string)
    qed
  qed
qed (use assms in \<open>auto simp: normalize_def split: if_splits bool.splits\<close>)

lemma normalize_other_key:
  assumes "normalize parsed = Inr p" and "k \<noteq> ''customer_impact_level''"
  shows "py_getitem p k = py_getitem parsed k"
proof (cases parsed)
  case (JObj kvs)
  show ?thesis
  proof (cases "map_of kvs ''customer_impact_level''")
    case None
    with JObj assms(1) show ?thesis by (simp add: normalize_absent)
  next
    case (Some w)
    show ?thesis
    proof (cases "\<exists>s. w = JStr s")
      case True
      then obtain s where "w = JStr s" ..
      with Some have m: "map_of kvs ''customer_impact_level'' = Some (JStr s)" by simp
      from assms(1) JObj normalize_string[OF m] assms(2) show ?thesis
        by (auto simp: update_conv')
    next
      case False
      with Some JObj assms(1) show ?thesis by (simp add: normalize_not_string)
    qed
  qed
qed (use assms(1) in \<open>auto simp: normalize_def split: if_splits bool.splits\<close>)

lemma fallback_level_range:
  assumes "fallback_response st t = Inr r" and "py_getitem r ''customer_impact_level'' = Inr v"
  shows "v = JStr ''low'' \<or> v = JStr ''medium'' \<or> v = JStr ''high''"
  using assms fallback_impact_range[of t]
  by (auto simp: fallback_response_def split: sum.splits)

lemma fallback_examples:
  "fallback_impact (JStr ''invoice.payment_failed'') = Inr ''high''"
  "fallback_impact (JStr ''charge.dispute.created'') = Inr ''high''"
  "fallback_impact (JStr ''invoice.upcoming'') = Inr ''low''"
  "fallback_impact (JStr ''ping'') = Inr ''medium''"
  "fallback_impact (JStr ''unknown_type'') = Inr ''medium''"
  by (simp_all add: fallback_impact_def)

lemma analyze_fallback:
  assumes "well_shaped event" and "fits st event"
      and "snd (llm_attempt api_key loads reply (the_request api_key event)) = Inl e"
  shows "snd (analyze_stripe_event st api_key loads reply event)
           = fallback_response st (spec_event_type event)"
  using assms(3) by (auto simp: analyze_prepared[OF assms(1,2)] split: prod.splits sum.splits)

lemma sublist_concat: "x \<in> set xss \<Longrightarrow> sublist x (concat xss)"
proof (induction xss)
  case Nil
  then show ?case by simp
next
  case (Cons y ys)
  show ?case
  proof (cases "x = y")
    case True
    then show ?thesis by simp
  next
    case False
    with Cons have "sublist x (concat ys)" by simp
    then obtain ps ss where "concat ys = ps @ x @ ss" unfolding sublist_def by blast
    then have "concat (y # ys) = (y @ ps) @ x @ ss" by simp
    then show ?thesis unfolding sublist_def by blast
  qed
qed

lemma user_prompt_embeds:
  "sublist event_type (user_prompt event_type event_str)"
  "sublist event_str (user_prompt event_type event_str)"
  unfolding user_prompt_def by (rule sublist_concat, simp)+

lemma llm_attempt_failures:
  "\<exists>e. snd (llm_attempt api_key loads PostRaises req) = Inl e"
  "\<exists>e. snd (llm_attempt api_key loads StatusRaises req) = Inl e"
  "\<exists>e. snd (llm_attempt api_key loads JsonRaises req) = Inl e"
  "handle_response loads result_json = Inl e' \<Longrightarrow>
     \<exists>e. snd (llm_attempt api_key loads (Body result_json) req) = Inl e"
  "api_key = None \<or> api_key = Some [] \<Longrightarrow> \<exists>e. snd (llm_attempt api_key loads reply req) = Inl e"
  by (auto simp: llm_attempt_def)

lemma analyze_returns:
  assumes "well_shaped event" and "iterable (spec_event_type event)" and "fits st event"
  shows "\<exists>r. snd (analyze_stripe_event st api_key loads reply event) = Inr r"
proof -
  from assms(3) have "\<not> str_raises st (spec_event_type event)" by (simp add: fits_def)
  with assms(2) obtain r where r: "fallback_response st (spec_event_type event) = Inr r"
    using fallback_response_iterable by blast
  then show ?thesis
    by (auto simp: analyze_prepared[OF assms(1,3)] split: prod.splits sum.splits)
qed

lemma same_except_refl: "same_except key kvs kvs"
  by (simp add: same_except_def list_all2_refl)

lemma same_except_update:
  "key \<in> set (map fst kvs) \<Longrightarrow> same_except key kvs (AList.update key v kvs)"
  unfolding same_except_def
proof (induction kvs)
  case Nil
  then show ?case by simp
next
  case (Cons p ps)
  then show ?case by (cases "fst p = key") (auto simp: list_all2_refl)
qed

lemma same_except_keys: "same_except key kvs kvs' \<Longrightarrow> map fst kvs' = map fst kvs"
  unfolding same_except_def by (induction kvs kvs' rule: list_all2_induct) auto

lemma same_except_values:
  "same_except key kvs kvs' \<Longrightarrow> k \<noteq> key \<Longrightarrow> map_of kvs' k = map_of kvs k"
  unfolding same_except_def by (induction kvs kvs' rule: list_all2_induct) auto

lemma analyze_called:
  assumes "fst (analyze_stripe_event st api_key loads reply event) \<noteq> []"
  shows "well_shaped event" and "fits st event" and "\<exists>k. api_key = Some k \<and> k \<noteq> []"
proof -
  show w: "well_shaped event"
    using assms analyze_ill_shaped[of event st api_key loads reply] by (cases "well_shaped event") simp_all
  show f: "fits st event"
    using assms analyze_exhausted[OF w, of st api_key loads reply] by (cases "fits st event") simp_all
  show "\<exists>k. api_key = Some k \<and> k \<noteq> []"
  proof (rule ccontr)
    assume "\<not> (\<exists>k. api_key = Some k \<and> k \<noteq> [])"
    then have "api_key = None \<or> api_key = Some []" by (cases api_key) auto
    then have "fst (llm_attempt api_key loads reply (the_request api_key event)) = []"
      by (auto simp: llm_attempt_def)
    with assms show False
      by (auto simp: analyze_prepared[OF w f] split: prod.splits sum.splits)
  qed
qed

lemma analyze_parsed:
  assumes "fst (analyze_stripe_event st api_key loads (Body result_json) event) \<noteq> []"
      and "extract_content result_json = Inr (JStr content)"
      and "loads (clean content) = Some parsed"
  shows "snd (analyze_stripe_event st api_key loads (Body result_json) event) =
           (case normalize parsed of
              Inr p \<Rightarrow> Inr p
            | Inl e \<Rightarrow> fallback_response st (spec_event_type event))"
proof -
  from analyze_called[OF assms(1)] obtain k where w: "well_shaped event" and f: "fits st event"
    and k: "api_key = Some k" "k \<noteq> []" by blast
  have "llm_attempt api_key loads (Body result_json) (the_request api_key event)
        = ([the_request api_key event], normalize parsed)"
    using k assms(2,3) by (simp add: llm_attempt_def handle_response_def)
  then show ?thesis
    by (simp add: analyze_prepared[OF w f] split: sum.splits)
qed

lemma llm_attempt_normalized:
  "llm_attempt api_key loads reply req = (sent, Inr p) \<Longrightarrow> \<exists>parsed. normalize parsed = Inr p"
  by (auto simp: llm_attempt_def handle_response_def split: if_splits reply.splits sum.splits option.splits)

lemma analyze_result_cases:
  assumes "analyze_stripe_event st api_key loads reply event = (sent, Inr r)"
  shows "well_shaped event" and "fits st event"
    and "(\<exists>e. snd (llm_attempt api_key loads reply (the_request api_key event)) = Inl e
          \<and> fallback_response st (spec_event_type event) = Inr r)
       \<or> (snd (llm_attempt api_key loads reply (the_request api_key event)) = Inr r)"
proof -
  show w: "well_shaped event"
    using assms analyze_ill_shaped[of event st api_key loads reply] by (cases "well_shaped event") simp_all
  show f: "fits st event"
    using assms analyze_exhausted[OF w, of st api_key loads reply] by (cases "fits st event") simp_all
  from assms
  show "(\<exists>e. snd (llm_attempt api_key loads reply (the_request api_key event)) = Inl e
          \<and> fallback_response st (spec_event_type event) = Inr r)
       \<or> (snd (llm_attempt api_key loads reply (the_request api_key event)) = Inr r)"
    by (auto simp: analyze_prepared[OF w f] split: prod.splits sum.splits)
qed

lemma fallback_response_event_type:
  "fallback_response st t = Inr r \<Longrightarrow> py_getitem r ''event_type'' = Inr t"
  by (auto simp: fallback_response_def split: sum.splits)

lemma lower_examples:
  "lower ''HIGH'' = ''high''"
  "lower ''LOW'' = ''low''"
  "lower ''Critical'' = ''critical''"
  by code_simp+

lemma nesting_nest: "nesting (nest n x) = n + nesting x"
  by (induction n) simp_all

lemma sample_stack_simps:
  "str_exhausts (sample_stack limit) v \<longleftrightarrow> limit < nesting v"
  "dumps_exhausts (sample_stack limit) v \<longleftrightarrow> limit < nesting v"
  by (simp_all add: sample_stack_def)

text \<open>The events and the definitions the examples below are evaluated with.\<close>

lemmas analysis_defs =
  analyze_stripe_event_def extract_metadata_def log_message_def build_prompts_def dumps_def
  sample_stack_def llm_attempt_def the_request_def spec_event_type_def field_or_def str_text_def

lemma prompt_without_placeholder:
  "\<not> sublist ''{}'' (user_prompt ''charge.succeeded''
        (dumps_text 0 (JObj [(''type'', JStr ''charge.succeeded'')])))"
proof -
  have "\<not> contains ''{}'' (user_prompt ''charge.succeeded''
        (dumps_text 0 (JObj [(''type'', JStr ''charge.succeeded'')])))"
    by (simp add: user_prompt_def json_string_def json_escape_char_def
        newline_indent_def numeral_2_eq_2)
  then show ?thesis by (simp add: contains_iff_sublist)
qed

lemma deep_event:
  "well_shaped (JObj [(''type'', JStr ''ping''), (''payload'', nest 901 JNull)])"
  "\<not> fits (sample_stack 900) (JObj [(''type'', JStr ''ping''), (''payload'', nest 901 JNull)])"
  by (simp_all add: well_shaped_def field_or_def spec_data_object_def fits_def sample_stack_def
      nesting_nest)

lemma shallow_events:
  "well_shaped (JObj [(''type'', JStr ''ping'')])"
  "fits (sample_stack 900) (JObj [(''type'', JStr ''ping'')])"
  "well_shaped (JObj [])"
  "fits (sample_stack 900) (JObj [])"
  by (simp_all add: well_shaped_def field_or_def spec_data_object_def spec_object_id_def
      spec_event_type_def fits_def str_raises_def sample_stack_def)

section \<open>The claims\<close>

subsection \<open>Round trip of the event type\<close>

text \<open>
  Claim C1, as stated, fails on the success path: for the event \<^verbatim>\<open>{"type": "ping"}\<close> and a
  service that answers \<^verbatim>\<open>{"event_type": "charge.refunded"}\<close>, the result carries the
  service's event type.
\<close>

theorem event_type_counterexample:
  \<open>snd (analyze_stripe_event (sample_stack 900) (Some ''sk-test'')
          (map_of [(''{"event_type": "charge.refunded"}'',
                    JObj [(''event_type'', JStr ''charge.refunded'')])])
          (Body (completion ''{"event_type": "charge.refunded"}''))
          (JObj [(''type'', JStr ''ping'')]))
     = Inr (JObj [(''event_type'', JStr ''charge.refunded'')])
   \<and> spec_event_type (JObj [(''type'', JStr ''ping'')]) = JStr ''ping''\<close>
  by (simp add: analysis_defs handle_response_def extract_content_completion clean_def
      normalize_def strip_def isspace_def)

text \<open>
  Claim C1, amended. Whenever the function returns: if the \<^verbatim>\<open>try\<close> body raised (the
  fallback path), the \<^verbatim>\<open>event_type\<close> of the result is the input's type, or
  \<^verbatim>\<open>unknown_type\<close> when the event has none; if it did not (the success path), the result is
  the value the \<^verbatim>\<open>try\<close> body produced: the service's parsed object, normalised, whose
  \<^verbatim>\<open>event_type\<close> is what the service wrote, present or not.
\<close>

theorem event_type_round_trip:
  assumes "analyze_stripe_event st api_key loads reply event = (sent, Inr r)"
  shows "(\<forall>e. snd (llm_attempt api_key loads reply (the_request api_key event)) = Inl e
            \<longrightarrow> py_getitem r ''event_type'' = Inr (spec_event_type event))
       \<and> (\<forall>p. snd (llm_attempt api_key loads reply (the_request api_key event)) = Inr p
            \<longrightarrow> r = p)
       \<and> (\<forall>result_json content parsed p.
            reply = Body result_json \<and> sent \<noteq> []
            \<and> extract_content result_json = Inr (JStr content)
            \<and> loads (clean content) = Some parsed
            \<and> normalize parsed = Inr p
            \<longrightarrow> r = p \<and> py_getitem r ''event_type'' = py_getitem parsed ''event_type'')"
proof (intro conjI allI impI)
  fix e
  assume "snd (llm_attempt api_key loads reply (the_request api_key event)) = Inl e"
  with analyze_result_cases(3)[OF assms] fallback_response_event_type
  show "py_getitem r ''event_type'' = Inr (spec_event_type event)" by auto
next
  fix p
  assume "snd (llm_attempt api_key loads reply (the_request api_key event)) = Inr p"
  with analyze_result_cases(3)[OF assms] show "r = p" by auto
next
  fix result_json content parsed p
  assume h: "reply = Body result_json \<and> sent \<noteq> []
            \<and> extract_content result_json = Inr (JStr content)
            \<and> loads (clean content) = Some parsed
            \<and> normalize parsed = Inr p"
  from assms h have c: "fst (analyze_stripe_event st api_key loads (Body result_json) event) \<noteq> []"
    by simp
  from analyze_parsed[OF c, of content parsed] h assms show rp: "r = p" by simp
  from h have "py_getitem p ''event_type'' = py_getitem parsed ''event_type''"
    by (intro normalize_other_key) simp_all
  with rp show "py_getitem r ''event_type'' = py_getitem parsed ''event_type''" by simp
qed

text \<open>
  The amended claim at the event \<^verbatim>\<open>{"type": "ping"}\<close> with the service unreachable.
\<close>

theorem event_type_round_trip_witness:
  "analyze_stripe_event (sample_stack 900) (Some ''sk-test'') Map.empty PostRaises
       (JObj [(''type'', JStr ''ping'')])
     = ([the_request (Some ''sk-test'') (JObj [(''type'', JStr ''ping'')])],
        Inr (JObj [
          (''event_type'', JStr ''ping''),
          (''summary'', JStr ''Received event ping. Automated analysis unavailable.''),
          (''root_cause'', JStr ''N/A (LLM unavailable)''),
          (''customer_impact_level'', JStr ''medium''),
          (''recommended_actions'', JArr [JStr ''Check Stripe Dashboard manually.''])]))
   \<and> py_getitem (JObj [
          (''event_type'', JStr ''ping''),
          (''summary'', JStr ''Received event ping. Automated analysis unavailable.''),
          (''root_cause'', JStr ''N/A (LLM unavailable)''),
          (''customer_impact_level'', JStr ''medium''),
          (''recommended_actions'', JArr [JStr ''Check Stripe Dashboard manually.''])])
        ''event_type'' = Inr (spec_event_type (JObj [(''type'', JStr ''ping'')]))"
proof -
  let ?ev = "JObj [(''type'', JStr ''ping'')]"
  have a: "analyze_stripe_event (sample_stack 900) (Some ''sk-test'') Map.empty PostRaises ?ev
     = ([the_request (Some ''sk-test'') ?ev],
        Inr (JObj [
          (''event_type'', JStr ''ping''),
          (''summary'', JStr ''Received event ping. Automated analysis unavailable.''),
          (''root_cause'', JStr ''N/A (LLM unavailable)''),
          (''customer_impact_level'', JStr ''medium''),
          (''recommended_actions'', JArr [JStr ''Check Stripe Dashboard manually.''])]))"
    by (simp add: analysis_defs fallback_response_def fallback_examples)
  have f: "snd (llm_attempt (Some ''sk-test'') Map.empty PostRaises
              (the_request (Some ''sk-test'') ?ev)) = Inl RequestError"
    by (simp add: llm_attempt_def)
  from event_type_round_trip[OF a, THEN conjunct1, rule_format, OF f]
  have g: "py_getitem (JObj [
          (''event_type'', JStr ''ping''),
          (''summary'', JStr ''Received event ping. Automated analysis unavailable.''),
          (''root_cause'', JStr ''N/A (LLM unavailable)''),
          (''customer_impact_level'', JStr ''medium''),
          (''recommended_actions'', JArr [JStr ''Check Stripe Dashboard manually.''])])
        ''event_type'' = Inr (spec_event_type ?ev)" .
  show ?thesis by (intro conjI) (rule a g)+
qed

subsection \<open>The closed set of impact levels\<close>

text \<open>
  Claim C2, as stated, fails twice for the event type \<^verbatim>\<open>invoice.payment_failed\<close>. A
  response that omits the field is returned without it. A response whose level is the
  number 3 is not coerced to \<^verbatim>\<open>medium\<close>: it is rejected, and the fallback result, with
  impact \<^verbatim>\<open>high\<close>, is returned.
\<close>

theorem impact_level_counterexample:
  \<open>snd (analyze_stripe_event (sample_stack 900) (Some ''sk-test'')
          (map_of [(''{"summary": "Payment failed."}'',
                    JObj [(''summary'', JStr ''Payment failed.'')])])
          (Body (completion ''{"summary": "Payment failed."}''))
          (JObj [(''type'', JStr ''invoice.payment_failed'')]))
     = Inr (JObj [(''summary'', JStr ''Payment failed.'')])
   \<and> py_getitem (JObj [(''summary'', JStr ''Payment failed.'')]) ''customer_impact_level''
     = Inl KeyError
   \<and> snd (analyze_stripe_event (sample_stack 900) (Some ''sk-test'')
          (map_of [(''{"customer_impact_level": 3}'',
                    JObj [(''customer_impact_level'', JInt 3)])])
          (Body (completion ''{"customer_impact_level": 3}''))
          (JObj [(''type'', JStr ''invoice.payment_failed'')]))
     = Inr (JObj [
         (''event_type'', JStr ''invoice.payment_failed''),
         (''summary'', JStr ''Received event invoice.payment_failed. Automated analysis unavailable.''),
         (''root_cause'', JStr ''N/A (LLM unavailable)''),
         (''customer_impact_level'', JStr ''high''),
         (''recommended_actions'', JArr [JStr ''Check Stripe Dashboard manually.''])])\<close>
  by (simp add: analysis_defs handle_response_def extract_content_completion clean_def
      normalize_def strip_def isspace_def fallback_response_def fallback_examples)

text \<open>
  Claim C2, amended. Whenever the function returns a result that carries
  \<^verbatim>\<open>customer_impact_level\<close>, its value is \<^verbatim>\<open>low\<close>, \<^verbatim>\<open>medium\<close> or \<^verbatim>\<open>high\<close>. When the
  service was called and its cleaned content parses as an object: a string level is
  lower-cased and, if then outside the three, replaced by \<^verbatim>\<open>medium\<close>; an object without the
  field is returned as it is, without it; a level that is not a string is rejected, and the
  fallback result is returned.
\<close>

theorem impact_level_closed_when_present:
  assumes "analyze_stripe_event st api_key loads reply event = (sent, Inr r)"
  shows "(\<forall>v. py_getitem r ''customer_impact_level'' = Inr v
            \<longrightarrow> v = JStr ''low'' \<or> v = JStr ''medium'' \<or> v = JStr ''high'')
       \<and> (\<forall>result_json content kvs.
            reply = Body result_json \<and> sent \<noteq> []
            \<and> extract_content result_json = Inr (JStr content)
            \<and> loads (clean content) = Some (JObj kvs)
            \<longrightarrow> (case map_of kvs ''customer_impact_level'' of
                   None \<Rightarrow> r = JObj kvs
                 | Some (JStr s) \<Rightarrow>
                     r = JObj (AList.update ''customer_impact_level''
                           (JStr (if lower s \<in> set [''low'', ''medium'', ''high'']
                                  then lower s else ''medium'')) kvs)
                 | Some _ \<Rightarrow> Inr r = fallback_response st (spec_event_type event)))"
proof (intro conjI allI impI)
  fix v
  assume v: "py_getitem r ''customer_impact_level'' = Inr v"
  let ?a = "llm_attempt api_key loads reply (the_request api_key event)"
  from analyze_result_cases(3)[OF assms]
  show "v = JStr ''low'' \<or> v = JStr ''medium'' \<or> v = JStr ''high''"
  proof
    assume "\<exists>e. snd ?a = Inl e \<and> fallback_response st (spec_event_type event) = Inr r"
    then show ?thesis using fallback_level_range v by blast
  next
    assume "snd ?a = Inr r"
    then have "?a = (fst ?a, Inr r)" by (metis prod.collapse)
    then obtain parsed where "normalize parsed = Inr r"
      using llm_attempt_normalized by blast
    then show ?thesis using normalize_level_range v by blast
  qed
next
  fix result_json content kvs
  assume h: "reply = Body result_json \<and> sent \<noteq> []
            \<and> extract_content result_json = Inr (JStr content)
            \<and> loads (clean content) = Some (JObj kvs)"
  from assms h have c: "fst (analyze_stripe_event st api_key loads (Body result_json) event) \<noteq> []"
    by simp
  from analyze_parsed[OF c, of content "JObj kvs"] h assms
  have r: "Inr r = (case normalize (JObj kvs) of Inr p \<Rightarrow> Inr p
                    | Inl e \<Rightarrow> fallback_response st (spec_event_type event))"
    by simp
  show "case map_of kvs ''customer_impact_level'' of
          None \<Rightarrow> r = JObj kvs
        | Some (JStr s) \<Rightarrow>
            r = JObj (AList.update ''customer_impact_level''
                  (JStr (if lower s \<in> set [''low'', ''medium'', ''high'']
                         then lower s else ''medium'')) kvs)
        | Some _ \<Rightarrow> Inr r = fallback_response st (spec_event_type event)"
  proof (cases "map_of kvs ''customer_impact_level''")
    case None
    with r show ?thesis by (simp add: normalize_absent)
  next
    case (Some w)
    show ?thesis
    proof (cases "\<exists>s. w = JStr s")
      case True
      then obtain s where w: "w = JStr s" ..
      with Some have m: "map_of kvs ''customer_impact_level'' = Some (JStr s)" by simp
      from r show ?thesis unfolding m normalize_string[OF m] by simp
    next
      case False
      then have n: "normalize (JObj kvs) = Inl AttributeError"
        using normalize_not_string[OF Some] by blast
      from False r show ?thesis unfolding Some n by (cases w) simp_all
    qed
  qed
qed

text \<open>
  The amended claim for the level \<^verbatim>\<open>Critical\<close>.
\<close>

theorem impact_level_witness:
  \<open>analyze_stripe_event (sample_stack 900) (Some ''sk-test'')
      (map_of [(''{"customer_impact_level": "Critical"}'',
                JObj [(''customer_impact_level'', JStr ''Critical'')])])
      (Body (completion ''{"customer_impact_level": "Critical"}''))
      (JObj [(''type'', JStr ''ping'')])
    = ([the_request (Some ''sk-test'') (JObj [(''type'', JStr ''ping'')])],
       Inr (JObj [(''customer_impact_level'', JStr ''medium'')]))
   \<and> py_getitem (JObj [(''customer_impact_level'', JStr ''medium'')]) ''customer_impact_level''
       = Inr (JStr ''medium'')
   \<and> (JStr ''medium'' = JStr ''low'' \<or> JStr ''medium'' = JStr ''medium''
        \<or> JStr ''medium'' = JStr ''high'')\<close>
proof -
  have a: \<open>analyze_stripe_event (sample_stack 900) (Some ''sk-test'')
      (map_of [(''{"customer_impact_level": "Critical"}'',
                JObj [(''customer_impact_level'', JStr ''Critical'')])])
      (Body (completion ''{"customer_impact_level": "Critical"}''))
      (JObj [(''type'', JStr ''ping'')])
    = ([the_request (Some ''sk-test'') (JObj [(''type'', JStr ''ping'')])],
       Inr (JObj [(''customer_impact_level'', JStr ''medium'')]))\<close>
    by (simp add: analysis_defs handle_response_def extract_content_completion clean_def
        normalize_def strip_def isspace_def lower_examples)
  have g: "py_getitem (JObj [(''customer_impact_level'', JStr ''medium'')]) ''customer_impact_level''
       = Inr (JStr ''medium'')"
    by simp
  from impact_level_closed_when_present[OF a, THEN conjunct1, rule_format, OF g]
  have d: "JStr ''medium'' = JStr ''low'' \<or> JStr ''medium'' = JStr ''medium''
        \<or> JStr ''medium'' = JStr ''high''" .
  show ?thesis by (intro conjI) (rule a g d)+
qed

subsection \<open>Extraction and prompts\<close>

text \<open>
  Claim C3, as stated, fails three times. An event whose \<^verbatim>\<open>data\<close> is \<^verbatim>\<open>null\<close> makes the
  second \<^verbatim>\<open>get\<close> raise \<^verbatim>\<open>AttributeError\<close>. For an event without \<^verbatim>\<open>data.object\<close>, whose
  default is the empty object, the user prompt holds no \<^verbatim>\<open>{}\<close> anywhere: the default is
  only used to read the id. And where the stack gives out beyond 900 levels of nesting, the
  prompts of an event of type \<^verbatim>\<open>ping\<close> that carries a list nested 901 deep are not built:
  \<^verbatim>\<open>json.dumps\<close> raises \<^verbatim>\<open>RecursionError\<close>.
\<close>

theorem extraction_counterexample:
  "extract_metadata (JObj [(''type'', JStr ''charge.succeeded''), (''data'', JNull)])
     = Inl AttributeError
   \<and> spec_data_object (JObj [(''type'', JStr ''charge.succeeded'')]) = JObj []
   \<and> build_prompts (sample_stack 900) (JStr ''charge.succeeded'')
         (JObj [(''type'', JStr ''charge.succeeded'')])
       = Inr (system_prompt, user_prompt ''charge.succeeded''
               (dumps_text 0 (JObj [(''type'', JStr ''charge.succeeded'')])))
   \<and> \<not> sublist ''{}'' (user_prompt ''charge.succeeded''
               (dumps_text 0 (JObj [(''type'', JStr ''charge.succeeded'')])))
   \<and> build_prompts (sample_stack 900) (JStr ''ping'')
         (JObj [(''type'', JStr ''ping''), (''payload'', nest 901 JNull)])
       = Inl RecursionError"
proof -
  have a: "extract_metadata (JObj [(''type'', JStr ''charge.succeeded''), (''data'', JNull)])
     = Inl AttributeError"
    by (simp add: extract_metadata_def)
  have b: "spec_data_object (JObj [(''type'', JStr ''charge.succeeded'')]) = JObj []"
    by (simp add: spec_data_object_def field_or_def)
  have c: "build_prompts (sample_stack 900) (JStr ''charge.succeeded'')
         (JObj [(''type'', JStr ''charge.succeeded'')])
       = Inr (system_prompt, user_prompt ''charge.succeeded''
               (dumps_text 0 (JObj [(''type'', JStr ''charge.succeeded'')])))"
    by (simp add: build_prompts_def dumps_def sample_stack_def)
  have d: "build_prompts (sample_stack 900) (JStr ''ping'')
         (JObj [(''type'', JStr ''ping''), (''payload'', nest 901 JNull)])
       = Inl RecursionError"
    by (simp add: build_prompts_def dumps_def sample_stack_def nesting_nest)
  show ?thesis by (intro conjI) (rule a b c d prompt_without_placeholder)+
qed

text \<open>
  Claim C3, amended. The extraction succeeds exactly on the events that are objects whose
  \<^verbatim>\<open>data\<close>, when present, is an object whose \<^verbatim>\<open>object\<close>, when present, is an object; it
  then yields the type, the data object and the id with the defaults \<^verbatim>\<open>unknown_type\<close>,
  \<^verbatim>\<open>{}\<close> and \<^verbatim>\<open>unknown_id\<close> for what is missing, and on every other event it raises
  \<^verbatim>\<open>AttributeError\<close>. The construction of the prompts raises \<^verbatim>\<open>RecursionError\<close> when
  \<^verbatim>\<open>json.dumps\<close> of the event or \<^verbatim>\<open>str()\<close> of a type that is a list or an object
  exhausts the stack, and otherwise returns the two prompts. The user prompt embeds the text of the type
  and the whole event as \<^verbatim>\<open>json.dumps(event, indent=2)\<close> prints it, which for the empty event
  is \<^verbatim>\<open>{}\<close>. The default \<^verbatim>\<open>{}\<close> of a missing \<^verbatim>\<open>data.object\<close> is not embedded: the prompts
  are built from the type and the event alone, and for the event
  \<^verbatim>\<open>{"type": "charge.succeeded"}\<close>, whose data object is that default, they are built and
  the user prompt holds no \<^verbatim>\<open>{}\<close>.
\<close>

theorem extraction_on_well_shaped:
  "extract_metadata event =
     (if well_shaped event
      then Inr (spec_event_type event, spec_data_object event, spec_object_id event)
      else Inl AttributeError)
   \<and> build_prompts st event_type event =
       (if dumps_exhausts st event \<or> str_raises st event_type then Inl RecursionError
        else Inr (system_prompt, user_prompt (str_text event_type) (dumps_text 0 event)))
   \<and> sublist (str_text event_type) (user_prompt (str_text event_type) (dumps_text 0 event))
   \<and> sublist (dumps_text 0 event) (user_prompt (str_text event_type) (dumps_text 0 event))
   \<and> dumps_text 0 (JObj []) = ''{}''
   \<and> spec_data_object (JObj [(''type'', JStr ''charge.succeeded'')]) = JObj []
   \<and> snd (analyze_stripe_event (sample_stack 900) (Some ''sk-test'') loads PostRaises
            (JObj [(''type'', JStr ''charge.succeeded'')])) \<noteq> Inl RecursionError
   \<and> fst (analyze_stripe_event (sample_stack 900) (Some ''sk-test'') loads PostRaises
            (JObj [(''type'', JStr ''charge.succeeded'')]))
       = [build_request (Some ''sk-test'') system_prompt
            (user_prompt ''charge.succeeded''
               (dumps_text 0 (JObj [(''type'', JStr ''charge.succeeded'')])))]
   \<and> \<not> sublist ''{}'' (user_prompt ''charge.succeeded''
               (dumps_text 0 (JObj [(''type'', JStr ''charge.succeeded'')])))"
proof -
  have a: "extract_metadata event =
     (if well_shaped event
      then Inr (spec_event_type event, spec_data_object event, spec_object_id event)
      else Inl AttributeError)"
    by (simp add: extract_metadata_well_shaped extract_metadata_ill_shaped)
  have b: "spec_data_object (JObj [(''type'', JStr ''charge.succeeded'')]) = JObj []"
    by (simp add: spec_data_object_def field_or_def)
  have c: "snd (analyze_stripe_event (sample_stack 900) (Some ''sk-test'') loads PostRaises
            (JObj [(''type'', JStr ''charge.succeeded'')])) \<noteq> Inl RecursionError"
    by (simp add: analysis_defs fallback_response_def fallback_impact_def)
  have d: "fst (analyze_stripe_event (sample_stack 900) (Some ''sk-test'') loads PostRaises
            (JObj [(''type'', JStr ''charge.succeeded'')]))
       = [build_request (Some ''sk-test'') system_prompt
            (user_prompt ''charge.succeeded''
               (dumps_text 0 (JObj [(''type'', JStr ''charge.succeeded'')])))]"
    by (simp add: analysis_defs)
  have e: "dumps_text 0 (JObj []) = ''{}''" by simp
  show ?thesis
    by (intro conjI) (rule a b c d e build_prompts_cases user_prompt_embeds
        prompt_without_placeholder)+
qed

subsection \<open>The error boundary\<close>

text \<open>
  Claim C4, as stated, fails: with the service unreachable, an event whose \<^verbatim>\<open>data.object\<close>
  is a string raises \<^verbatim>\<open>AttributeError\<close> before the \<^verbatim>\<open>try\<close> is entered; an event whose
  type is \<^verbatim>\<open>null\<close> raises \<^verbatim>\<open>TypeError\<close> inside the handler, at the first \<^verbatim>\<open>in\<close>; and,
  where the stack gives out beyond 900 levels of nesting, an event of type \<^verbatim>\<open>ping\<close> that
  carries a list nested 901 deep raises \<^verbatim>\<open>RecursionError\<close> in \<^verbatim>\<open>json.dumps\<close>, before the
  \<^verbatim>\<open>try\<close>, and no request is sent.
\<close>

theorem error_boundary_counterexample:
  "snd (analyze_stripe_event (sample_stack 900) (Some ''sk-test'') Map.empty PostRaises
          (JObj [(''type'', JStr ''charge.succeeded''), (''data'', JObj [(''object'', JStr ''ch_1'')])]))
     = Inl AttributeError
   \<and> snd (analyze_stripe_event (sample_stack 900) (Some ''sk-test'') Map.empty PostRaises
          (JObj [(''type'', JNull), (''data'', JObj [(''object'', JObj [(''id'', JStr ''ch_1'')])])]))
     = Inl TypeError
   \<and> well_shaped (JObj [(''type'', JStr ''ping''), (''payload'', nest 901 JNull)])
   \<and> analyze_stripe_event (sample_stack 900) (Some ''sk-test'') Map.empty PostRaises
          (JObj [(''type'', JStr ''ping''), (''payload'', nest 901 JNull)])
     = ([], Inl RecursionError)"
proof -
  have a: "snd (analyze_stripe_event (sample_stack 900) (Some ''sk-test'') Map.empty PostRaises
          (JObj [(''type'', JStr ''charge.succeeded''), (''data'', JObj [(''object'', JStr ''ch_1'')])]))
     = Inl AttributeError"
    by (simp add: analysis_defs)
  have b: "snd (analyze_stripe_event (sample_stack 900) (Some ''sk-test'') Map.empty PostRaises
          (JObj [(''type'', JNull), (''data'', JObj [(''object'', JObj [(''id'', JStr ''ch_1'')])])]))
     = Inl TypeError"
    by (simp add: analysis_defs fallback_response_def fallback_impact_def)
  show ?thesis
    by (intro conjI) (rule a b deep_event(1) analyze_exhausted[OF deep_event])+
qed

text \<open>
  Claim C4, amended. For every event on which the extraction succeeds, whose type is a
  string, a list or an object, and on which neither \<^verbatim>\<open>str()\<close> of the type or of the id nor
  \<^verbatim>\<open>json.dumps\<close> of the event exhausts the stack, and for every key, parser and behaviour of
  the service, the function returns a value; whenever the request fails (no connection or
  timeout, error status, body that is not JSON, response without the expected structure or
  with content that does not parse, no key at all) that value is the fallback result for
  the type.
\<close>

theorem error_boundary_on_well_shaped:
  assumes "well_shaped event" and "iterable (spec_event_type event)" and "fits st event"
  shows "\<exists>r. snd (analyze_stripe_event st api_key loads reply event) = Inr r \<and>
           ((reply = PostRaises \<or> reply = StatusRaises \<or> reply = JsonRaises
             \<or> (\<exists>result_json e. reply = Body result_json \<and> handle_response loads result_json = Inl e)
             \<or> api_key = None \<or> api_key = Some [])
            \<longrightarrow> fallback_response st (spec_event_type event) = Inr r)"
proof -
  from analyze_returns[OF assms] obtain r
    where r: "snd (analyze_stripe_event st api_key loads reply event) = Inr r" by blast
  let ?t = "spec_event_type event"
  let ?req = "the_request api_key event"
  have "fallback_response st ?t = Inr r"
    if "reply = PostRaises \<or> reply = StatusRaises \<or> reply = JsonRaises
        \<or> (\<exists>result_json e. reply = Body result_json \<and> handle_response loads result_json = Inl e)
        \<or> api_key = None \<or> api_key = Some []"
  proof -
    from that have "\<exists>e. snd (llm_attempt api_key loads reply ?req) = Inl e"
      using llm_attempt_failures by blast
    then obtain e where "snd (llm_attempt api_key loads reply ?req) = Inl e" ..
    from analyze_fallback[OF assms(1,3) this] r show ?thesis by simp
  qed
  with r show ?thesis by blast
qed

text \<open>
  The amended claim at the event \<^verbatim>\<open>{"type": "ping"}\<close> with an error status.
\<close>

theorem error_boundary_witness:
  "well_shaped (JObj [(''type'', JStr ''ping'')])
   \<and> iterable (spec_event_type (JObj [(''type'', JStr ''ping'')]))
   \<and> fits (sample_stack 900) (JObj [(''type'', JStr ''ping'')])
   \<and> (\<exists>r. snd (analyze_stripe_event (sample_stack 900) (Some ''sk-test'') Map.empty StatusRaises
              (JObj [(''type'', JStr ''ping'')])) = Inr r
          \<and> fallback_response (sample_stack 900)
              (spec_event_type (JObj [(''type'', JStr ''ping'')])) = Inr r)"
proof -
  have w: "well_shaped (JObj [(''type'', JStr ''ping'')])" by (rule shallow_events)
  have i: "iterable (spec_event_type (JObj [(''type'', JStr ''ping'')]))"
    by (simp add: spec_event_type_def field_or_def)
  have f: "fits (sample_stack 900) (JObj [(''type'', JStr ''ping'')])" by (rule shallow_events)
  from error_boundary_on_well_shaped[OF w i f, of "Some ''sk-test''" Map.empty StatusRaises]
  show ?thesis using w i f by blast
qed

subsection \<open>The fallback classifier\<close>

text \<open>
  Claim C5. For every string event type the fallback classifier takes the first of these
  that applies: the type contains \<^verbatim>\<open>payment_failed\<close>, impact \<^verbatim>\<open>high\<close>; it contains
  \<^verbatim>\<open>dispute\<close>, \<^verbatim>\<open>high\<close>; it contains \<^verbatim>\<open>invoice.upcoming\<close>, \<^verbatim>\<open>low\<close>; otherwise
  \<^verbatim>\<open>medium\<close>. The whole fallback result is a function of the type string alone, whatever
  the stack.
\<close>

theorem fallback_classification:
  "fallback_impact (JStr event_type) = Inr (spec_impact event_type) \<and>
   fallback_response st (JStr event_type) = Inr (JObj [
     (''event_type'', JStr event_type),
     (''summary'', JStr (''Received event '' @ event_type @ ''. Automated analysis unavailable.'')),
     (''root_cause'', JStr ''N/A (LLM unavailable)''),
     (''customer_impact_level'', JStr (spec_impact event_type)),
     (''recommended_actions'', JArr [JStr ''Check Stripe Dashboard manually.''])])"
  by (simp add: fallback_response_def fallback_impact_string)

subsection \<open>No key, no request\<close>

text \<open>
  Claim C6, as stated, fails. For the event \<^verbatim>\<open>{"type": 5}\<close>, without a key, no request is
  sent, but the handler raises \<^verbatim>\<open>TypeError\<close> instead of returning the fallback result. And
  where the stack gives out beyond 900 levels of nesting, an event of type \<^verbatim>\<open>ping\<close> that
  carries a list nested 901 deep raises \<^verbatim>\<open>RecursionError\<close> before the key is looked at.
\<close>

theorem missing_key_counterexample:
  "analyze_stripe_event (sample_stack 900) None Map.empty PostRaises (JObj [(''type'', JInt 5)])
     = ([], Inl TypeError)
   \<and> analyze_stripe_event (sample_stack 900) None Map.empty PostRaises
          (JObj [(''type'', JStr ''ping''), (''payload'', nest 901 JNull)])
     = ([], Inl RecursionError)"
proof -
  have a: "analyze_stripe_event (sample_stack 900) None Map.empty PostRaises
      (JObj [(''type'', JInt 5)]) = ([], Inl TypeError)"
    by (simp add: analysis_defs fallback_response_def fallback_impact_def)
  show ?thesis by (intro conjI) (rule a analyze_exhausted[OF deep_event])+
qed

text \<open>
  Claim C6, amended. For every event on which the extraction succeeds, whose type is a
  string, a list or an object, and on which neither \<^verbatim>\<open>str()\<close> of the type or of the id nor
  \<^verbatim>\<open>json.dumps\<close> of the event exhausts the stack: if the key is unset or empty, no request
  is sent and the function returns the fallback result for the event's type, the very
  result returned when the service cannot be reached.
\<close>

theorem missing_key_short_circuit:
  assumes "api_key = None \<or> api_key = Some []"
      and "well_shaped event" and "iterable (spec_event_type event)" and "fits st event"
  shows "\<exists>r. analyze_stripe_event st api_key loads reply event = ([], Inr r)
           \<and> fallback_response st (spec_event_type event) = Inr r
           \<and> snd (analyze_stripe_event st other_key loads PostRaises event) = Inr r"
proof -
  let ?t = "spec_event_type event"
  from assms(4) have "\<not> str_raises st ?t" by (simp add: fits_def)
  with assms(3) obtain r where r: "fallback_response st ?t = Inr r"
    using fallback_response_iterable by blast
  have a: "llm_attempt api_key loads reply (the_request api_key event) = ([], Inl ValueError)"
    using assms(1) by (auto simp: llm_attempt_def)
  have 1: "analyze_stripe_event st api_key loads reply event = ([], Inr r)"
    using a r by (simp add: analyze_prepared[OF assms(2,4)])
  obtain e where "snd (llm_attempt other_key loads PostRaises (the_request other_key event)) = Inl e"
    using llm_attempt_failures(1) by blast
  from analyze_fallback[OF assms(2,4) this] r
  have "snd (analyze_stripe_event st other_key loads PostRaises event) = Inr r" by simp
  with 1 r show ?thesis by blast
qed

text \<open>
  The amended claim at the empty event.
\<close>

theorem missing_key_witness:
  "well_shaped (JObj []) \<and> iterable (spec_event_type (JObj []))
   \<and> fits (sample_stack 900) (JObj [])
   \<and> (\<exists>r. analyze_stripe_event (sample_stack 900) None Map.empty (Body JNull) (JObj []) = ([], Inr r)
          \<and> fallback_response (sample_stack 900) (spec_event_type (JObj [])) = Inr r
          \<and> snd (analyze_stripe_event (sample_stack 900) (Some ''sk-test'') Map.empty PostRaises
                  (JObj [])) = Inr r)"
proof -
  have w: "well_shaped (JObj [])" by (rule shallow_events)
  have i: "iterable (spec_event_type (JObj []))"
    by (simp add: spec_event_type_def field_or_def)
  have f: "fits (sample_stack 900) (JObj [])" by (rule shallow_events)
  from missing_key_short_circuit[OF _ w i f, of None Map.empty "Body JNull" "Some ''sk-test''"]
  show ?thesis using w i f by blast
qed

subsection \<open>A failed payment, end to end\<close>

text \<open>
  Claim C7. For the event \<^verbatim>\<open>{"type": "invoice.payment_failed", "data": {"object": {"id":
  "in_12345"}}}\<close> and an unreachable service, whatever the key and the parser, the function
  returns exactly the event type, the summary template naming it, the root cause
  \<^verbatim>\<open>N/A (LLM unavailable)\<close>, the impact \<^verbatim>\<open>high\<close> and the single action
  \<^verbatim>\<open>Check Stripe Dashboard manually.\<close> The one way not to is a stack that \<^verbatim>\<open>json.dumps\<close>
  exhausts on this event of three levels: the type and the id are strings, which \<^verbatim>\<open>str()\<close>
  returns as they are. On the sample stack the result is the stated one.
\<close>

theorem failed_payment_end_to_end:
  "snd (analyze_stripe_event st api_key loads PostRaises
         (JObj [(''type'', JStr ''invoice.payment_failed''),
                (''data'', JObj [(''object'', JObj [(''id'', JStr ''in_12345'')])])]))
   = (if dumps_exhausts st
           (JObj [(''type'', JStr ''invoice.payment_failed''),
                  (''data'', JObj [(''object'', JObj [(''id'', JStr ''in_12345'')])])])
      then Inl RecursionError
      else Inr (JObj [
       (''event_type'', JStr ''invoice.payment_failed''),
       (''summary'', JStr ''Received event invoice.payment_failed. Automated analysis unavailable.''),
       (''root_cause'', JStr ''N/A (LLM unavailable)''),
       (''customer_impact_level'', JStr ''high''),
       (''recommended_actions'', JArr [JStr ''Check Stripe Dashboard manually.''])]))
   \<and> snd (analyze_stripe_event (sample_stack 900) api_key loads PostRaises
         (JObj [(''type'', JStr ''invoice.payment_failed''),
                (''data'', JObj [(''object'', JObj [(''id'', JStr ''in_12345'')])])]))
   = Inr (JObj [
       (''event_type'', JStr ''invoice.payment_failed''),
       (''summary'', JStr ''Received event invoice.payment_failed. Automated analysis unavailable.''),
       (''root_cause'', JStr ''N/A (LLM unavailable)''),
       (''customer_impact_level'', JStr ''high''),
       (''recommended_actions'', JArr [JStr ''Check Stripe Dashboard manually.''])])"
proof -
  let ?ev = "JObj [(''type'', JStr ''invoice.payment_failed''),
                   (''data'', JObj [(''object'', JObj [(''id'', JStr ''in_12345'')])])]"
  let ?r = "JObj [
       (''event_type'', JStr ''invoice.payment_failed''),
       (''summary'', JStr ''Received event invoice.payment_failed. Automated analysis unavailable.''),
       (''root_cause'', JStr ''N/A (LLM unavailable)''),
       (''customer_impact_level'', JStr ''high''),
       (''recommended_actions'', JArr [JStr ''Check Stripe Dashboard manually.''])]"
  have w: "well_shaped ?ev"
    by (simp add: well_shaped_def field_or_def spec_data_object_def)
  have t: "spec_event_type ?ev = JStr ''invoice.payment_failed''"
    by (simp add: spec_event_type_def field_or_def)
  have f: "fits s ?ev \<longleftrightarrow> \<not> dumps_exhausts s ?ev" for s
    by (simp add: fits_def str_raises_def spec_event_type_def spec_object_id_def
        spec_data_object_def field_or_def)
  have fb: "fallback_response s (JStr ''invoice.payment_failed'') = Inr ?r" for s
    by (simp add: fallback_response_def fallback_examples)
  have g: "snd (analyze_stripe_event s api_key loads PostRaises ?ev)
      = (if dumps_exhausts s ?ev then Inl RecursionError else Inr ?r)" for s
  proof (cases "dumps_exhausts s ?ev")
    case True
    then have "\<not> fits s ?ev" by (simp add: f)
    from analyze_exhausted[OF w this] True show ?thesis by simp
  next
    case False
    then have fi: "fits s ?ev" by (simp add: f)
    obtain e where "snd (llm_attempt api_key loads PostRaises (the_request api_key ?ev)) = Inl e"
      using llm_attempt_failures(1) by blast
    from analyze_fallback[OF w fi this] False show ?thesis by (simp add: t fb)
  qed
  have n: "\<not> dumps_exhausts (sample_stack 900) ?ev"
    by (simp add: sample_stack_def)
  have h: "snd (analyze_stripe_event (sample_stack 900) api_key loads PostRaises ?ev) = Inr ?r"
    using g[of "sample_stack 900"] n by simp
  show ?thesis by (intro conjI) (rule g h)+
qed

subsection \<open>Code fences and case\<close>

text \<open>
  Claim C8, as stated, fails for a fenced object that has a second key spelt with a fence
  marker inside: the object carries \<^verbatim>\<open>HIGH\<close>, the cleaned text has the key twice, the
  parser keeps the last one, and the result carries \<^verbatim>\<open>low\<close>.
\<close>

theorem code_fence_counterexample:
  \<open>map_of [(''{"customer_impact_level": "HIGH", "customer_```impact_level": "LOW"}'',
              JObj [(''customer_impact_level'', JStr ''HIGH''),
                    (''customer_```impact_level'', JStr ''LOW'')]),
            (''{"customer_impact_level": "HIGH", "customer_impact_level": "LOW"}'',
              JObj [(''customer_impact_level'', JStr ''LOW'')])]
      ''{"customer_impact_level": "HIGH", "customer_```impact_level": "LOW"}''
     = Some (JObj [(''customer_impact_level'', JStr ''HIGH''),
                   (''customer_```impact_level'', JStr ''LOW'')])
   \<and> analyze_stripe_event (sample_stack 900) (Some ''sk-test'')
       (map_of [(''{"customer_impact_level": "HIGH", "customer_```impact_level": "LOW"}'',
                  JObj [(''customer_impact_level'', JStr ''HIGH''),
                        (''customer_```impact_level'', JStr ''LOW'')]),
                (''{"customer_impact_level": "HIGH", "customer_impact_level": "LOW"}'',
                  JObj [(''customer_impact_level'', JStr ''LOW'')])])
       (Body (completion
         ''```json\<newline>{"customer_impact_level": "HIGH", "customer_```impact_level": "LOW"}\<newline>```''))
       (JObj [(''type'', JStr ''ping'')])
     = ([the_request (Some ''sk-test'') (JObj [(''type'', JStr ''ping'')])],
        Inr (JObj [(''customer_impact_level'', JStr ''low'')]))\<close>
  by (simp add: analysis_defs handle_response_def extract_content_completion clean_def
      normalize_def strip_def isspace_def lower_examples)

text \<open>
  Claim C8, amended. When the service was called and answered with content that is a text
  without any triple backtick of its own, either wrapped in \<^verbatim>\<open>```json\<close> and \<^verbatim>\<open>```\<close> or
  not wrapped at all, and that text, stripped, parses as an object carrying
  \<^verbatim>\<open>customer_impact_level\<close> \<^verbatim>\<open>HIGH\<close>, the cleaned content is the stripped text and the
  function returns the object with the level \<^verbatim>\<open>high\<close>.
\<close>

theorem code_fence_and_case:
  assumes "fst (analyze_stripe_event st api_key loads (Body result_json) event) \<noteq> []"
      and "extract_content result_json = Inr (JStr content)"
      and "content = ''```json'' @ text @ ''```'' \<or> content = text"
      and "\<not> sublist ''```'' text"
      and "loads (strip text) = Some (JObj kvs)"
      and "map_of kvs ''customer_impact_level'' = Some (JStr ''HIGH'')"
  shows "clean content = strip text
       \<and> snd (analyze_stripe_event st api_key loads (Body result_json) event)
           = Inr (JObj (AList.update ''customer_impact_level'' (JStr ''high'') kvs))
       \<and> py_getitem (JObj (AList.update ''customer_impact_level'' (JStr ''high'') kvs))
             ''customer_impact_level'' = Inr (JStr ''high'')"
proof -
  have c: "clean content = strip text"
    using assms(3) clean_fenced[OF assms(4)] by auto
  have n: "normalize (JObj kvs)
      = Inr (JObj (AList.update ''customer_impact_level'' (JStr ''high'') kvs))"
    using normalize_string[OF assms(6)] by (simp add: lower_examples)
  have "snd (analyze_stripe_event st api_key loads (Body result_json) event)
      = Inr (JObj (AList.update ''customer_impact_level'' (JStr ''high'') kvs))"
    using analyze_parsed[OF assms(1,2), of "JObj kvs"] assms(5) c n by simp
  with c show ?thesis by (simp add: update_conv')
qed

text \<open>
  The amended claim for a fenced answer with newlines inside the fences.
\<close>

theorem code_fence_witness:
  \<open>fst (analyze_stripe_event (sample_stack 900) (Some ''sk-test'')
          (map_of [(''{"customer_impact_level": "HIGH"}'',
                    JObj [(''customer_impact_level'', JStr ''HIGH'')])])
          (Body (completion ''```json\<newline>{"customer_impact_level": "HIGH"}\<newline>```''))
          (JObj [(''type'', JStr ''ping'')])) \<noteq> []
   \<and> \<not> sublist ''```'' ''\<newline>{"customer_impact_level": "HIGH"}\<newline>''
   \<and> strip ''\<newline>{"customer_impact_level": "HIGH"}\<newline>'' = ''{"customer_impact_level": "HIGH"}''
   \<and> clean ''```json\<newline>{"customer_impact_level": "HIGH"}\<newline>```''
       = strip ''\<newline>{"customer_impact_level": "HIGH"}\<newline>''
   \<and> snd (analyze_stripe_event (sample_stack 900) (Some ''sk-test'')
          (map_of [(''{"customer_impact_level": "HIGH"}'',
                    JObj [(''customer_impact_level'', JStr ''HIGH'')])])
          (Body (completion ''```json\<newline>{"customer_impact_level": "HIGH"}\<newline>```''))
          (JObj [(''type'', JStr ''ping'')]))
       = Inr (JObj [(''customer_impact_level'', JStr ''high'')])\<close>
proof -
  let ?text = \<open>''\<newline>{"customer_impact_level": "HIGH"}\<newline>''\<close>
  let ?loads = \<open>map_of [(''{"customer_impact_level": "HIGH"}'',
                    JObj [(''customer_impact_level'', JStr ''HIGH'')])]\<close>
  let ?body = \<open>completion ''```json\<newline>{"customer_impact_level": "HIGH"}\<newline>```''\<close>
  let ?ev = "JObj [(''type'', JStr ''ping'')]"
  have h1: "fst (analyze_stripe_event (sample_stack 900) (Some ''sk-test'') ?loads (Body ?body) ?ev) \<noteq> []"
    by (simp add: analyze_prepared[OF shallow_events(1,2)] llm_attempt_def
        split: prod.splits sum.splits)
  have h2: \<open>extract_content ?body
      = Inr (JStr ''```json\<newline>{"customer_impact_level": "HIGH"}\<newline>```'')\<close>
    by (rule extract_content_completion)
  have h3: \<open>''```json\<newline>{"customer_impact_level": "HIGH"}\<newline>```'' = ''```json'' @ ?text @ ''```''
      \<or> ''```json\<newline>{"customer_impact_level": "HIGH"}\<newline>```'' = ?text\<close>
    by simp
  have h4: "\<not> sublist ''```'' ?text"
    unfolding contains_iff_sublist[symmetric] by simp
  have s: \<open>strip ?text = ''{"customer_impact_level": "HIGH"}''\<close>
    by (simp add: strip_def isspace_def)
  have h5: "?loads (strip ?text) = Some (JObj [(''customer_impact_level'', JStr ''HIGH'')])"
    by (simp add: s)
  have h6: "map_of [(''customer_impact_level'', JStr ''HIGH'')] ''customer_impact_level''
      = Some (JStr ''HIGH'')"
    by simp
  have u: "AList.update ''customer_impact_level'' (JStr ''high'')
        [(''customer_impact_level'', JStr ''HIGH'')] = [(''customer_impact_level'', JStr ''high'')]"
    by simp
  from code_fence_and_case[OF h1 h2 h3 h4 h5 h6]
  have cl: \<open>clean ''```json\<newline>{"customer_impact_level": "HIGH"}\<newline>```'' = strip ?text\<close>
    and r: "snd (analyze_stripe_event (sample_stack 900) (Some ''sk-test'') ?loads (Body ?body) ?ev)
       = Inr (JObj [(''customer_impact_level'', JStr ''high'')])"
    unfolding u by blast+
  show ?thesis by (intro conjI) (rule h1 h4 s cl r)+
qed

subsection \<open>The frame of the success path\<close>

text \<open>
  Claim C9, as stated, fails when the level is not a string: for the level \<^verbatim>\<open>null\<close> the
  call of \<^verbatim>\<open>lower\<close> raises, and the function returns the fallback result, with other
  keys and other values than the parsed object.
\<close>

theorem success_frame_counterexample:
  \<open>analyze_stripe_event (sample_stack 900) (Some ''sk-test'')
      (map_of [(''{"summary": "Card declined.", "customer_impact_level": null}'',
                JObj [(''summary'', JStr ''Card declined.''), (''customer_impact_level'', JNull)])])
      (Body (completion ''{"summary": "Card declined.", "customer_impact_level": null}''))
      (JObj [(''type'', JStr ''charge.failed'')])
    = ([the_request (Some ''sk-test'') (JObj [(''type'', JStr ''charge.failed'')])],
       Inr (JObj [
         (''event_type'', JStr ''charge.failed''),
         (''summary'', JStr ''Received event charge.failed. Automated analysis unavailable.''),
         (''root_cause'', JStr ''N/A (LLM unavailable)''),
         (''customer_impact_level'', JStr ''medium''),
         (''recommended_actions'', JArr [JStr ''Check Stripe Dashboard manually.''])]))\<close>
  by (simp add: analysis_defs handle_response_def extract_content_completion clean_def
      normalize_def strip_def isspace_def fallback_response_def fallback_impact_def)

text \<open>
  Claim C9, amended. When the service was called and its cleaned content parses as an
  object: if its \<^verbatim>\<open>customer_impact_level\<close> is a string or is absent, the function returns
  an object with the same keys in the same order and the same values, except possibly the
  value under \<^verbatim>\<open>customer_impact_level\<close> (no key is added, none removed); otherwise the
  parsed object is dropped and the function does what the fallback does for the type.
\<close>

theorem success_frame:
  assumes "fst (analyze_stripe_event st api_key loads (Body result_json) event) \<noteq> []"
      and "extract_content result_json = Inr (JStr content)"
      and "loads (clean content) = Some (JObj kvs)"
  shows "if string_or_absent (map_of kvs ''customer_impact_level'')
         then \<exists>kvs'. snd (analyze_stripe_event st api_key loads (Body result_json) event)
                        = Inr (JObj kvs')
                \<and> same_except ''customer_impact_level'' kvs kvs'
                \<and> map fst kvs' = map fst kvs
                \<and> (\<forall>k. k \<noteq> ''customer_impact_level'' \<longrightarrow> map_of kvs' k = map_of kvs k)
         else snd (analyze_stripe_event st api_key loads (Body result_json) event)
                = fallback_response st (spec_event_type event)"
proof (cases "string_or_absent (map_of kvs ''customer_impact_level'')")
  case True
  have "\<exists>kvs'. normalize (JObj kvs) = Inr (JObj kvs') \<and> same_except ''customer_impact_level'' kvs kvs'"
  proof (cases "map_of kvs ''customer_impact_level''")
    case None
    then show ?thesis using normalize_absent same_except_refl by blast
  next
    case (Some v)
    with True obtain s where v: "v = JStr s" by (cases v) simp_all
    from Some v have m: "map_of kvs ''customer_impact_level'' = Some (JStr s)" by simp
    show ?thesis
      using normalize_string[OF m] same_except_update[OF key_present[OF m]] by blast
  qed
  then obtain kvs' where n: "normalize (JObj kvs) = Inr (JObj kvs')"
    and s: "same_except ''customer_impact_level'' kvs kvs'" by blast
  from analyze_parsed[OF assms(1,2,3)] n
  have "snd (analyze_stripe_event st api_key loads (Body result_json) event) = Inr (JObj kvs')"
    by simp
  with s same_except_keys[OF s] same_except_values[OF s] True show ?thesis by auto
next
  case False
  then obtain v where Some: "map_of kvs ''customer_impact_level'' = Some v"
    by (cases "map_of kvs ''customer_impact_level''") simp_all
  with False have "\<And>s. v \<noteq> JStr s" by auto
  from normalize_not_string[OF Some this] analyze_parsed[OF assms(1,2,3)] False
  show ?thesis by simp
qed

text \<open>
  The amended claim for an answer without summary, root cause or actions.
\<close>

theorem success_frame_witness:
  \<open>fst (analyze_stripe_event (sample_stack 900) (Some ''sk-test'')
          (map_of [(''{"customer_impact_level": "LOW", "note": 1}'',
                    JObj [(''customer_impact_level'', JStr ''LOW''), (''note'', JInt 1)])])
          (Body (completion ''{"customer_impact_level": "LOW", "note": 1}''))
          (JObj [])) \<noteq> []
   \<and> string_or_absent (map_of [(''customer_impact_level'', JStr ''LOW''), (''note'', JInt 1)]
          ''customer_impact_level'')
   \<and> (\<exists>kvs'. snd (analyze_stripe_event (sample_stack 900) (Some ''sk-test'')
          (map_of [(''{"customer_impact_level": "LOW", "note": 1}'',
                    JObj [(''customer_impact_level'', JStr ''LOW''), (''note'', JInt 1)])])
          (Body (completion ''{"customer_impact_level": "LOW", "note": 1}''))
          (JObj [])) = Inr (JObj kvs')
        \<and> same_except ''customer_impact_level''
              [(''customer_impact_level'', JStr ''LOW''), (''note'', JInt 1)] kvs'
        \<and> map fst kvs' = map fst [(''customer_impact_level'', JStr ''LOW''), (''note'', JInt 1)]
        \<and> (\<forall>k. k \<noteq> ''customer_impact_level'' \<longrightarrow>
              map_of kvs' k = map_of [(''customer_impact_level'', JStr ''LOW''), (''note'', JInt 1)] k))\<close>
proof -
  let ?loads = \<open>map_of [(''{"customer_impact_level": "LOW", "note": 1}'',
                    JObj [(''customer_impact_level'', JStr ''LOW''), (''note'', JInt 1)])]\<close>
  let ?body = \<open>completion ''{"customer_impact_level": "LOW", "note": 1}''\<close>
  have h1: "fst (analyze_stripe_event (sample_stack 900) (Some ''sk-test'') ?loads (Body ?body)
      (JObj [])) \<noteq> []"
    by (simp add: analyze_prepared[OF shallow_events(3,4)] llm_attempt_def
        split: prod.splits sum.splits)
  have h2: \<open>extract_content ?body = Inr (JStr ''{"customer_impact_level": "LOW", "note": 1}'')\<close>
    by (rule extract_content_completion)
  have h3: \<open>?loads (clean ''{"customer_impact_level": "LOW", "note": 1}'')
      = Some (JObj [(''customer_impact_level'', JStr ''LOW''), (''note'', JInt 1)])\<close>
    by (simp add: clean_def strip_def isspace_def)
  have h4: "string_or_absent (map_of [(''customer_impact_level'', JStr ''LOW''), (''note'', JInt 1)]
          ''customer_impact_level'')"
    by simp
  show ?thesis
    by (intro conjI) (rule h1 h4 success_frame[OF h1 h2 h3, unfolded if_P[OF h4]])+
qed

subsection \<open>Markers are removed everywhere\<close>

text \<open>
  Claim C10. Whatever the content, no triple backtick, and so no \<^verbatim>\<open>```json\<close>, is left in
  the cleaned content, wherever it stood. And nothing else goes: for content made of plain
  pieces of text with a marker, \<^verbatim>\<open>```json\<close> or \<^verbatim>\<open>```\<close>, between each piece and the next,
  at any place and in any number, the cleaned content is the pieces put together, stripped
  of the white space at its two ends. A marker inside a string value of the answer is so
  deleted from that value, and the result carries the shortened value.
\<close>

theorem global_marker_removal:
  \<open>\<not> sublist ''```'' (clean content)
   \<and> \<not> sublist ''```json'' (clean content)
   \<and> (plain p \<and> markers_ok mps \<longrightarrow> clean (with_markers p mps) = strip (without_markers p mps))
   \<and> clean ''{"summary": "Run ```stripe logs tail``` first."}''
       = ''{"summary": "Run stripe logs tail first."}''
   \<and> snd (analyze_stripe_event (sample_stack 900) (Some ''sk-test'')
          (map_of [(''{"summary": "Run stripe logs tail first."}'',
                    JObj [(''summary'', JStr ''Run stripe logs tail first.'')])])
          (Body (completion ''{"summary": "Run ```stripe logs tail``` first."}''))
          (JObj [(''type'', JStr ''ping'')]))
       = Inr (JObj [(''summary'', JStr ''Run stripe logs tail first.'')])\<close>
proof -
  have a: "\<not> sublist ''```'' (clean content)" by (rule clean_no_ticks)
  have "sublist ''```'' ''```json''" by (simp add: sublist_code)
  with a have b: "\<not> sublist ''```json'' (clean content)"
    using sublist_trans by blast
  have m: "plain p \<and> markers_ok mps \<longrightarrow> clean (with_markers p mps) = strip (without_markers p mps)"
    using clean_with_markers by blast
  have c: \<open>clean ''{"summary": "Run ```stripe logs tail``` first."}''
       = ''{"summary": "Run stripe logs tail first."}''\<close>
    by (simp add: clean_def strip_def isspace_def)
  have d: \<open>snd (analyze_stripe_event (sample_stack 900) (Some ''sk-test'')
          (map_of [(''{"summary": "Run stripe logs tail first."}'',
                    JObj [(''summary'', JStr ''Run stripe logs tail first.'')])])
          (Body (completion ''{"summary": "Run ```stripe logs tail``` first."}''))
          (JObj [(''type'', JStr ''ping'')]))
       = Inr (JObj [(''summary'', JStr ''Run stripe logs tail first.'')])\<close>
    by (simp add: analysis_defs handle_response_def extract_content_completion c normalize_def)
  show ?thesis by (intro conjI) (rule a b m c d)+
qed

text \<open>
  The claim for an answer with text before the opening fence, a span in backticks inside
  a string value and white space after the closing fence.
\<close>

theorem global_marker_removal_witness:
  \<open>plain ''Here: ''
   \<and> markers_ok [(''```json'', ''{"summary": "Run ''), (''```'', ''ls''), (''```'', ''"}''),
                 (''```'', '' '')]
   \<and> with_markers ''Here: '' [(''```json'', ''{"summary": "Run ''), (''```'', ''ls''),
                               (''```'', ''"}''), (''```'', '' '')]
       = ''Here: ```json{"summary": "Run ```ls```"}``` ''
   \<and> strip (without_markers ''Here: '' [(''```json'', ''{"summary": "Run ''), (''```'', ''ls''),
                               (''```'', ''"}''), (''```'', '' '')])
       = ''Here: {"summary": "Run ls"}''
   \<and> clean (with_markers ''Here: '' [(''```json'', ''{"summary": "Run ''), (''```'', ''ls''),
                               (''```'', ''"}''), (''```'', '' '')])
       = strip (without_markers ''Here: '' [(''```json'', ''{"summary": "Run ''), (''```'', ''ls''),
                               (''```'', ''"}''), (''```'', '' '')])\<close>
proof -
  let ?mps = \<open>[(''```json'', ''{"summary": "Run ''), (''```'', ''ls''), (''```'', ''"}''),
               (''```'', '' '')]\<close>
  have h1: "plain ''Here: ''" by (simp add: plain_def)
  have h2: "markers_ok ?mps" by (simp add: plain_def)
  have w: \<open>with_markers ''Here: '' ?mps = ''Here: ```json{"summary": "Run ```ls```"}``` ''\<close>
    by (simp add: with_markers_def)
  have s: \<open>strip (without_markers ''Here: '' ?mps) = ''Here: {"summary": "Run ls"}''\<close>
    by (simp add: without_markers_def strip_def isspace_def)
  have r: "clean (with_markers ''Here: '' ?mps) = strip (without_markers ''Here: '' ?mps)"
    by (rule global_marker_removal[THEN conjunct2, THEN conjunct2, THEN conjunct1, rule_format,
          OF conjI[OF h1 h2]])
  show ?thesis by (intro conjI) (rule h1 h2 w s r)+
qed

end
